theory Spec2Isabelle
  imports Complex_Main
begin

section \<open>The canvas interface used by the card generator\<close>

text \<open>
  The card generator (\<^verbatim>\<open>src/services/cardGenerator.ts\<close>) draws through the browser's
  \<^verbatim>\<open>CanvasRenderingContext2D\<close>. The embedding records every call and every property
  assignment made on a context, in program order, as a list of \<open>canvas_op\<close>.
  Coordinates and font sizes are JavaScript numbers; the finite ones are modelled as
  exact reals, so the rounding of IEEE doubles is outside the model (and so are
  \<^verbatim>\<open>NaN\<close> and the infinities). For the font sizes this is no restriction up to
  \<open>2^54\<close>: on a double between 14 and \<open>2^54\<close> subtracting 2 is exact. Above that the
  double subtraction rounds and can give back its argument, which the model does not
  follow. Strings are lists of 8-bit characters and are read as ASCII text.
\<close>

record font =
  fontWeight :: string
  fontSize :: real
  fontFace :: string

datatype style =
    Color string
  | LinearGradient real real real real "(real \<times> string) list"

text \<open>An angle in radians: a plain number, or a multiple of \<^verbatim>\<open>Math.PI\<close>.\<close>

datatype angle = Radians real | PiTimes real

datatype canvas_op =
    Save
  | Restore
  | BeginPath
  | MoveTo real real
  | LineTo real real
  | QuadraticCurveTo real real real real
  | Arc real real real angle angle
  | ClosePath
  | Clip
  | Stroke
  | FillRect real real real real
  | FillText string real real
  | DrawImage image real real real real
  | SetFillStyle style
  | SetStrokeStyle style
  | SetLineWidth real
  | SetGlobalAlpha real
  | SetShadowColor string
  | SetShadowBlur real
  | SetFont font
  | SetTextAlign string
  | SetTextBaseline string
and image =
    ImageElement string
  | CanvasImage nat nat "canvas_op list"

text \<open>
  \<open>ImageElement src\<close> is an \<^verbatim>\<open>Image\<close> that finished loading from \<open>src\<close>;
  \<open>CanvasImage w h ops\<close> is an \<^verbatim>\<open>Image\<close> whose source is the data URL of a
  \<open>w\<close> by \<open>h\<close> canvas on which \<open>ops\<close> were executed.
\<close>

definition CARD_WIDTH :: real where
  "CARD_WIDTH = 600"

definition CARD_HEIGHT :: real where
  "CARD_HEIGHT = 850"

section \<open>Adaptive text fit: \<^verbatim>\<open>drawTextWithFit\<close>\<close>

text \<open>
  \<^verbatim>\<open>ctx.measureText(text).width\<close> depends on the context's current font and on the text;
  it belongs to the platform and is a parameter \<open>measureText\<close> of the model.

  The \<^verbatim>\<open>while\<close> loop is the tail-recursive \<open>fitLoop\<close> on the loop state: the variable
  \<^verbatim>\<open>fontSize\<close> and the operations recorded on the context so far. Every call site
  passes the font weight and the colour, so the parameters' default values do not occur.
\<close>

definition mkFont :: "string \<Rightarrow> real \<Rightarrow> string \<Rightarrow> font" where
  "mkFont fontWeight' fontSize' fontFace' =
     \<lparr>fontWeight = fontWeight', fontSize = fontSize', fontFace = fontFace'\<rparr>"

function fitLoop ::
  "(font \<Rightarrow> string \<Rightarrow> real) \<Rightarrow> string \<Rightarrow> real \<Rightarrow> string \<Rightarrow> string
     \<Rightarrow> real \<times> canvas_op list \<Rightarrow> real \<times> canvas_op list" where
  "fitLoop measureText text maxWidth fontWeight' fontFace' (fontSize', ops) =
     (if measureText (mkFont fontWeight' fontSize' fontFace') text > maxWidth \<and> fontSize' > 14
      then fitLoop measureText text maxWidth fontWeight' fontFace'
             (fontSize' - 2, ops @ [SetFont (mkFont fontWeight' (fontSize' - 2) fontFace')])
      else (fontSize', ops))"
  by pat_completeness auto
termination
proof (relation "measure (\<lambda>(m, t, w, fw, ff, (fs, ops)). nat \<lceil>fs - 14\<rceil>)")
  show "wf (measure (\<lambda>(m, t, w, fw, ff, (fs, ops)). nat \<lceil>fs - 14 :: real\<rceil>))"
    by simp
next
  fix m :: "font \<Rightarrow> string \<Rightarrow> real" and t :: string and w :: real
    and fw ff :: string and fs :: real and ops :: "canvas_op list"
  assume "w < m (mkFont fw fs ff) t \<and> 14 < fs"
  then have "0 < \<lceil>fs - 14\<rceil>"
    by simp
  moreover have "\<lceil>fs - 2 - 14\<rceil> = \<lceil>fs - 14\<rceil> - 2"
    by (simp add: algebra_simps)
  ultimately show
    "((m, t, w, fw, ff, fs - 2, ops @ [SetFont (mkFont fw (fs - 2) ff)]),
      (m, t, w, fw, ff, fs, ops))
     \<in> measure (\<lambda>(m, t, w, fw, ff, (fs, ops)). nat \<lceil>fs - 14\<rceil>)"
    by simp
qed

declare fitLoop.simps [simp del]

definition drawTextWithFit ::
  "(font \<Rightarrow> string \<Rightarrow> real) \<Rightarrow> string \<Rightarrow> real \<Rightarrow> real \<Rightarrow> real \<Rightarrow> real
     \<Rightarrow> string \<Rightarrow> string \<Rightarrow> string \<Rightarrow> real \<times> canvas_op list" where
  "drawTextWithFit measureText text x y maxWidth initialFontSize fontFace' fontWeight' color =
     (let (fontSize', ops) =
            fitLoop measureText text maxWidth fontWeight' fontFace'
              (initialFontSize,
               [Save, SetTextAlign ''center'', SetTextBaseline ''alphabetic'',
                SetFillStyle (Color color),
                SetFont (mkFont fontWeight' initialFontSize fontFace')])
      in (fontSize', ops @ [FillText text x y, Restore]))"

text \<open>
  A concrete text measure for evaluating the routine: every character is one em wide,
  so a text is as wide as its length times the font size.
\<close>

definition emWidth :: "font \<Rightarrow> string \<Rightarrow> real" where
  "emWidth f text = real (length text) * fontSize f"

text \<open>
  The sizes the loop can visit from a given initial size: it steps down by 2 and
  stops testing once the size is no longer above 14. \<open>stopSize\<close> is the last size of
  that sequence (the initial size itself when that is not above 14; otherwise the
  initial size less the least even number that brings it to 14 or below, which is 14
  from an even integer and 13 from an odd one), \<open>candidateSize\<close> says that a size
  belongs to the sequence (it lies between the stopping size and the initial size, a
  whole number of steps of 2 below the latter), and \<open>fitsAt\<close> that the text measured at
  a size is within the budget.
\<close>

definition stopSize :: "real \<Rightarrow> real" where
  "stopSize initialFontSize =
     (if initialFontSize \<le> 14 then initialFontSize
      else initialFontSize - 2 * of_int \<lceil>(initialFontSize - 14) / 2\<rceil>)"



section \<open>The asset resolver: \<^verbatim>\<open>createPlaceholder\<close> and \<^verbatim>\<open>loadImage\<close>\<close>

text \<open>
  \<^verbatim>\<open>createPlaceholder\<close> draws on a fresh 400 by 400 canvas when
  \<^verbatim>\<open>canvas.getContext('2d')\<close> yields a context (the argument \<open>ctx\<close> says whether it
  does) and returns an image whose source is that canvas's own data URL.
\<close>

definition createPlaceholder :: "bool \<Rightarrow> image" where
  "createPlaceholder ctx =
     CanvasImage 400 400
       (if ctx then
          [SetFillStyle (Color ''#2a0e45''),
           FillRect 0 0 400 400,
           SetFillStyle (Color ''#4a1d6e''),
           FillRect 20 20 360 360,
           SetFillStyle (Color ''#ffd700''),
           SetFont (mkFont ''bold'' 40 ''sans-serif''),
           SetTextAlign ''center'',
           SetTextBaseline ''middle'',
           FillText ''NO IMAGE'' 200 200]
        else [])"

text \<open>
  After \<^verbatim>\<open>img.src = src\<close> the browser fires exactly one of the two events on the
  image; which one is the environment's choice. \<open>loadImage\<close> returns what the promise
  settles with (\<open>Inl\<close> would be a rejection, \<open>Inr\<close> is the resolved image) together
  with the effects it had: the load it started by assigning \<^verbatim>\<open>img.src\<close>, and its
  console warnings (\<open>NoSource\<close> for the message about a missing source,
  \<open>LoadFailed src\<close> for the message about the source that failed).
\<close>

datatype load_event = OnLoad | OnError

datatype warning = NoSource | LoadFailed string

datatype effect = Warn warning | StartLoad string

definition loadImage :: "load_event \<Rightarrow> bool \<Rightarrow> string \<Rightarrow> (string + image) \<times> effect list" where
  "loadImage event ctx src =
     (if src = [] then
        (Inr (createPlaceholder ctx), [Warn NoSource])
      else
        (case event of
           OnLoad \<Rightarrow> (Inr (ImageElement src), [StartLoad src])
         | OnError \<Rightarrow>
             (Inr (createPlaceholder ctx), [StartLoad src, Warn (LoadFailed src)])))"

section \<open>The shield silhouette: \<^verbatim>\<open>drawShieldPath\<close>\<close>

definition drawShieldPath :: "real \<Rightarrow> real \<Rightarrow> canvas_op list" where
  "drawShieldPath w h =
     [BeginPath,
      MoveTo (w * 0.1) (h * 0.1),
      LineTo (w * 0.9) (h * 0.1),
      LineTo (w * 0.9) (h * 0.7),
      QuadraticCurveTo (w * 0.9) (h * 0.85) (w * 0.5) (h * 0.95),
      QuadraticCurveTo (w * 0.1) (h * 0.85) (w * 0.1) (h * 0.7),
      ClosePath]"

section \<open>String helpers of the JavaScript runtime\<close>

text \<open>
  White space is the ASCII white space (tab, line feed, vertical tab, form feed,
  carriage return, space), and the case conversions act on the ASCII letters; the
  other Unicode white space and letters that JavaScript knows are outside the model.
  \<open>startsWith\<close>, \<open>endsWith\<close> and \<open>includesStr\<close> take the string first and the part
  looked for second, like the methods. \<open>numberToString\<close> is \<^verbatim>\<open>toString()\<close> on an
  integer-valued number, in decimal (JavaScript's exponent notation from \<open>10^21\<close> on is
  outside the model).
\<close>

definition isSpace :: "char \<Rightarrow> bool" where
  "isSpace c \<longleftrightarrow> of_char c \<in> {9, 10, 11, 12, 13, 32 :: nat}"

definition trim :: "string \<Rightarrow> string" where
  "trim s = rev (dropWhile isSpace (rev (dropWhile isSpace s)))"

definition toUpperCase :: "string \<Rightarrow> string" where
  "toUpperCase s =
     map (\<lambda>c. if 97 \<le> (of_char c :: nat) \<and> (of_char c :: nat) \<le> 122
              then char_of (of_char c - 32 :: nat) else c) s"

definition toLowerCase :: "string \<Rightarrow> string" where
  "toLowerCase s =
     map (\<lambda>c. if 65 \<le> (of_char c :: nat) \<and> (of_char c :: nat) \<le> 90
              then char_of (of_char c + 32 :: nat) else c) s"

definition startsWith :: "string \<Rightarrow> string \<Rightarrow> bool" where
  "startsWith s prefix \<longleftrightarrow> take (length prefix) s = prefix"

definition endsWith :: "string \<Rightarrow> string \<Rightarrow> bool" where
  "endsWith s suffix \<longleftrightarrow> length suffix \<le> length s \<and> drop (length s - length suffix) s = suffix"

fun includesStr :: "string \<Rightarrow> string \<Rightarrow> bool" where
  "includesStr [] sub = (sub = [])"
| "includesStr (c # cs) sub = (startsWith (c # cs) sub \<or> includesStr cs sub)"

definition padStart :: "nat \<Rightarrow> char \<Rightarrow> string \<Rightarrow> string" where
  "padStart n c s = replicate (n - length s) c @ s"

fun natToString :: "nat \<Rightarrow> string" where
  "natToString n =
     (if n < 10 then [char_of (48 + n)]
      else natToString (n div 10) @ [char_of (48 + n mod 10)])"

declare natToString.simps [simp del]

definition numberToString :: "int \<Rightarrow> string" where
  "numberToString i = (if i < 0 then CHR ''-'' # natToString (nat (- i)) else natToString (nat i))"

text \<open>
  \<^verbatim>\<open>parseInt\<close> without a radix: leading white space is skipped, a sign is read, a
  \<^verbatim>\<open>0x\<close> prefix selects radix 16, and the longest run of digits is converted.
  \<open>None\<close> is \<^verbatim>\<open>NaN\<close>. The result is an exact integer (the rounding of very long
  digit strings to a double is outside the model); \<^verbatim>\<open>-0\<close> is \<open>0\<close>.
\<close>

definition digitValue :: "char \<Rightarrow> nat option" where
  "digitValue c =
     (let n = (of_char c :: nat) in
      if 48 \<le> n \<and> n \<le> 57 then Some (n - 48)
      else if 97 \<le> n \<and> n \<le> 122 then Some (n - 87)
      else if 65 \<le> n \<and> n \<le> 90 then Some (n - 55)
      else None)"

definition isDigitIn :: "nat \<Rightarrow> char \<Rightarrow> bool" where
  "isDigitIn radix c \<longleftrightarrow> (case digitValue c of None \<Rightarrow> False | Some d \<Rightarrow> d < radix)"

definition digitsValue :: "nat \<Rightarrow> string \<Rightarrow> nat" where
  "digitsValue radix z = foldl (\<lambda>acc c. acc * radix + the (digitValue c)) 0 z"

definition parseInt :: "string \<Rightarrow> int option" where
  "parseInt inputString =
     (let s = dropWhile isSpace inputString;
          negative = (s \<noteq> [] \<and> hd s = CHR ''-'');
          s1 = (if s \<noteq> [] \<and> (hd s = CHR ''+'' \<or> hd s = CHR ''-'') then tl s else s);
          hex = (startsWith s1 ''0x'' \<or> startsWith s1 ''0X'');
          radix = (if hex then 16 else 10);
          s2 = (if hex then drop 2 s1 else s1);
          z = takeWhile (isDigitIn radix) s2
      in if z = [] then None
         else Some ((if negative then - 1 else 1) * int (digitsValue radix z)))"

text \<open>\<^verbatim>\<open>x || d\<close> on a number that may be \<^verbatim>\<open>NaN\<close>, and on a string that may be undefined.\<close>

definition numberOr :: "int option \<Rightarrow> int \<Rightarrow> int" where
  "numberOr x d = (case x of None \<Rightarrow> d | Some n \<Rightarrow> if n = 0 then d else n)"

definition stringOr :: "string option \<Rightarrow> string \<Rightarrow> string" where
  "stringOr x d = (case x of None \<Rightarrow> d | Some s \<Rightarrow> if s = [] then d else s)"

section \<open>Roster ingestion: \<^verbatim>\<open>parseExcelFile\<close>\<close>

record PlayerData =
  id' :: string
  name :: string
  role :: string
  battingStyle :: string
  bowlingStyle :: string
  formNumber :: int
  imageUrl :: string
  manualImage :: "string option"

text \<open>
  A row of the sheet, as \<^verbatim>\<open>sheet_to_json\<close> delivers it, is an object from header to
  cell value. The mapper reads a cell only through \<^verbatim>\<open>String(row[key])\<close> (and
  \<^verbatim>\<open>parseInt\<close>, which converts its argument to a string first), so a row is modelled
  as the list of its headers, in \<^verbatim>\<open>Object.keys\<close> order and without repetition, each
  with the string of its cell. A header that is not in the list is \<^verbatim>\<open>undefined\<close>.
\<close>

type_synonym row = "(string \<times> string) list"

definition isIdChar :: "char \<Rightarrow> bool" where
  "isIdChar c \<longleftrightarrow>
     (let n = (of_char c :: nat) in
      (97 \<le> n \<and> n \<le> 122) \<or> (65 \<le> n \<and> n \<le> 90) \<or> (48 \<le> n \<and> n \<le> 57)
      \<or> c = CHR ''_'' \<or> c = CHR ''-'')"

text \<open>
  \<open>matchId s lit\<close> is \<^verbatim>\<open>s.match(/lit([a-zA-Z0-9_-]+)/)\<close>: the leftmost place where
  \<open>lit\<close> is followed by at least one identifier character, and the captured run.
\<close>

fun matchId :: "string \<Rightarrow> string \<Rightarrow> string option" where
  "matchId [] lit = None"
| "matchId (c # cs) lit =
     (if startsWith (c # cs) lit \<and> takeWhile isIdChar (drop (length lit) (c # cs)) \<noteq> []
      then Some (takeWhile isIdChar (drop (length lit) (c # cs)))
      else matchId cs lit)"

fun firstMatch :: "string \<Rightarrow> string list \<Rightarrow> string" where
  "firstMatch cleanUrl [] = []"
| "firstMatch cleanUrl (pattern # patterns) =
     (case matchId cleanUrl pattern of
        Some fileId \<Rightarrow> fileId
      | None \<Rightarrow> firstMatch cleanUrl patterns)"

definition transformGoogleDriveUrl :: "string \<Rightarrow> string" where
  "transformGoogleDriveUrl url =
     (if url = [] then []
      else
        let cleanUrl = trim url in
        if cleanUrl = [] then []
        else if \<not> startsWith cleanUrl ''http'' \<and>
                (endsWith cleanUrl ''.jpg'' \<or> endsWith cleanUrl ''.png'' \<or> CHR ''.'' \<notin> set cleanUrl)
        then cleanUrl
        else if includesStr cleanUrl ''drive.google.com/thumbnail'' then cleanUrl
        else
          let fileId = firstMatch cleanUrl [''/file/d/'', ''id='', ''/d/''] in
          if fileId \<noteq> [] then ''https://drive.google.com/thumbnail?id='' @ fileId @ ''&sz=w1000''
          else cleanUrl)"

definition normalizeKey :: "string \<Rightarrow> string" where
  "normalizeKey key = filter (\<lambda>c. \<not> isSpace c) (toLowerCase key)"

fun exactMatch :: "row \<Rightarrow> string list \<Rightarrow> string option" where
  "exactMatch row [] = None"
| "exactMatch row (key # keys) =
     (case map_of row key of
        Some v \<Rightarrow> Some (trim v)
      | None \<Rightarrow> exactMatch row keys)"

fun fuzzyMatch :: "row \<Rightarrow> string list \<Rightarrow> string option" where
  "fuzzyMatch row [] = None"
| "fuzzyMatch row (key # keys) =
     (case find (\<lambda>rk. normalizeKey rk = normalizeKey key) (map fst row) of
        Some foundKey \<Rightarrow>
          (case map_of row foundKey of
             Some v \<Rightarrow> if foundKey \<noteq> [] then Some (trim v) else fuzzyMatch row keys
           | None \<Rightarrow> fuzzyMatch row keys)
      | None \<Rightarrow> fuzzyMatch row keys)"

definition getRowValue :: "row \<Rightarrow> string list \<Rightarrow> string option" where
  "getRowValue row possibleKeys =
     (case exactMatch row possibleKeys of
        Some v \<Rightarrow> Some v
      | None \<Rightarrow> fuzzyMatch row possibleKeys)"

definition formKeys :: "string list" where
  "formKeys = [''Form Number'', ''Form'', ''Rating'', ''OVR'']"

text \<open>The callback of \<^verbatim>\<open>rawData.map\<close> in the current \<^verbatim>\<open>parseExcelFile\<close>.\<close>

definition parseRow :: "row \<Rightarrow> nat \<Rightarrow> PlayerData" where
  "parseRow row index =
     (let rawName = stringOr (getRowValue row [''Player Name'', ''Name'', ''Player'']) ''Unknown'';
          rawRole = stringOr (getRowValue row [''Role'', ''Position'']) ''All Rounder'';
          rawBat = stringOr (getRowValue row [''Batting Style'', ''Batting'']) ''N/A'';
          rawBowl = stringOr (getRowValue row [''Bowling Style'', ''Bowling'']) ''N/A'';
          rawForm = stringOr (getRowValue row formKeys) ''50'';
          rawUrl = stringOr (getRowValue row
                     [''Image URL'', ''Image'', ''Photo'', ''Picture'', ''Url'', ''Link'']) [];
          rawUrl' = transformGoogleDriveUrl rawUrl
      in \<lparr>id' = ''player-'' @ natToString index,
          name = rawName,
          role = rawRole,
          battingStyle = rawBat,
          bowlingStyle = rawBowl,
          formNumber = numberOr (parseInt rawForm) 50,
          imageUrl = rawUrl',
          manualImage = None\<rparr>)"

text \<open>
  The earlier \<^verbatim>\<open>parseExcelFile\<close> computes the rating as
  \<^verbatim>\<open>parseInt(row['Form Number']) || 50\<close>; \<^verbatim>\<open>parseInt(undefined)\<close> parses the string
  \<^verbatim>\<open>"undefined"\<close>.
\<close>

definition formNumberOfRow :: "row \<Rightarrow> int" where
  "formNumberOfRow row =
     numberOr (parseInt (case map_of row ''Form Number'' of
                           None \<Rightarrow> ''undefined''
                         | Some v \<Rightarrow> v)) 50"

text \<open>
  \<^verbatim>\<open>parseExcelFile\<close> from \<^verbatim>\<open>rawData\<close> on (reading the file and decoding the first
  sheet are the XLSX library's): \<open>Inl\<close> is the rejection with the thrown message,
  \<open>Inr\<close> the resolved player list.
\<close>

definition parseExcelFile :: "row list \<Rightarrow> string + PlayerData list" where
  "parseExcelFile rawData =
     (if rawData = [] then
        Inl ''No data found in the first sheet. Please check the file content.''
      else
        let players = map (\<lambda>(row, index). parseRow row index) (zip rawData [0..<length rawData])
        in if players = [] then
             Inl ''Could not parse any players. Please ensure headers match the template.''
           else Inr players)"

section \<open>The card compositor: \<^verbatim>\<open>generateCard\<close>\<close>

text \<open>
  What one call of \<^verbatim>\<open>generateCard\<close> gets from the browser: whether
  \<^verbatim>\<open>getContext('2d')\<close> yields a context on the card's canvas and on a placeholder's
  canvas, the event fired for each image source, the successive values of
  \<^verbatim>\<open>Math.random()\<close>, and the text metrics.
\<close>

record env =
  cardContext :: bool
  placeholderContext :: bool
  imageEvent :: "string \<Rightarrow> load_event"
  mathRandom :: "nat \<Rightarrow> real"
  textWidth :: "font \<Rightarrow> string \<Rightarrow> real"

text \<open>
  The finished canvas: its size and the operations executed on its context. The PNG data
  URL that \<^verbatim>\<open>canvas.toDataURL\<close> returns is represented by the canvas it encodes;
  the images are requested with \<^verbatim>\<open>crossOrigin = "anonymous"\<close>, so the export is taken
  to succeed. The drawing code of \<^verbatim>\<open>generateCard\<close> is split into one definition per
  numbered part of the source: background, player image, sidebar, player name, stats
  and gold border.
\<close>

record canvas =
  canvasWidth :: real
  canvasHeight :: real
  canvasOps :: "canvas_op list"

definition textureLine :: "(nat \<Rightarrow> real) \<Rightarrow> nat \<Rightarrow> canvas_op list" where
  "textureLine rnd i =
     [BeginPath,
      MoveTo (rnd (2 * i) * CARD_WIDTH) 0,
      LineTo (rnd (2 * i + 1) * CARD_WIDTH) CARD_HEIGHT,
      Stroke]"

definition backgroundOps :: "(nat \<Rightarrow> real) \<Rightarrow> canvas_op list" where
  "backgroundOps rnd =
     [SetFillStyle (LinearGradient 0 0 CARD_WIDTH CARD_HEIGHT
        [(0, ''#3b1461''), (0.5, ''#2a0e45''), (1, ''#1a0525'')]),
      FillRect 0 0 CARD_WIDTH CARD_HEIGHT,
      Save,
      SetGlobalAlpha 0.1,
      SetStrokeStyle (Color ''#ffffff''),
      SetLineWidth 2]
     @ concat (map (textureLine rnd) [0..<5])
     @ [Restore]"

definition playerImageOps :: "image \<Rightarrow> canvas_op list" where
  "playerImageOps playerImg =
     (let playerScale = 1.1;
          playerW = 400 * playerScale;
          playerH = 400 * playerScale;
          playerX = (CARD_WIDTH - playerW) / 2 + 50;
          playerY = 135
      in [DrawImage playerImg playerX playerY playerW playerH,
          SetFillStyle (LinearGradient 0 (playerY + playerH - 120) 0 (playerY + playerH)
            [(0, ''rgba(42, 14, 69, 0)''), (1, ''rgba(42, 14, 69, 1)'')]),
          FillRect 0 (playerY + playerH - 120) CARD_WIDTH 140])"

definition ratingText :: "PlayerData \<Rightarrow> string" where
  "ratingText player = padStart 2 CHR ''0'' (numberToString (formNumber player))"

definition sidebarOps ::
  "(font \<Rightarrow> string \<Rightarrow> real) \<Rightarrow> PlayerData \<Rightarrow> image \<Rightarrow> image \<Rightarrow> canvas_op list" where
  "sidebarOps tw player agrasenImg logoImg =
     (let leftColumnCenter = 115;
          cursorY = 160;
          rating = [SetShadowColor ''rgba(0,0,0,0.5)'', SetShadowBlur 10]
                   @ snd (drawTextWithFit tw (ratingText player) leftColumnCenter cursorY
                            100 80 ''Oswald'' ''700'' ''#ffd700'');
          cursorY = cursorY + 40;
          roleAbbr = toUpperCase (take 3 (role player));
          abbr = [SetFont (mkFont ''600'' 40 ''Bebas Neue''),
                  SetFillStyle (Color ''#ffffff''),
                  SetTextAlign ''center'',
                  FillText roleAbbr leftColumnCenter cursorY];
          cursorY = cursorY + 30;
          divider = [BeginPath,
                     MoveTo (leftColumnCenter - 30) cursorY,
                     LineTo (leftColumnCenter + 30) cursorY,
                     SetStrokeStyle (Color ''#ffffff''),
                     SetLineWidth 2,
                     SetGlobalAlpha 0.5,
                     Stroke,
                     SetGlobalAlpha 1.0];
          cursorY = cursorY + 40;
          iconSize = 70;
          portrait = [Save,
                      BeginPath,
                      Arc leftColumnCenter (cursorY + iconSize / 2) (iconSize / 2) (Radians 0) (PiTimes 2),
                      ClosePath,
                      Clip,
                      DrawImage agrasenImg (leftColumnCenter - iconSize / 2) cursorY iconSize iconSize,
                      Restore,
                      BeginPath,
                      Arc leftColumnCenter (cursorY + iconSize / 2) (iconSize / 2) (Radians 0) (PiTimes 2),
                      SetLineWidth 2,
                      SetStrokeStyle (Color ''#ffd700''),
                      Stroke];
          cursorY = cursorY + iconSize + 20;
          logo = [DrawImage logoImg (leftColumnCenter - iconSize / 2) cursorY iconSize iconSize]
      in rating @ abbr @ divider @ portrait @ logo)"

definition playerNameOps :: "(font \<Rightarrow> string \<Rightarrow> real) \<Rightarrow> PlayerData \<Rightarrow> canvas_op list" where
  "playerNameOps tw player =
     (let nameY = 530
      in [Save, SetShadowColor ''black'', SetShadowBlur 4]
         @ snd (drawTextWithFit tw (toUpperCase (name player)) (CARD_WIDTH / 2) nameY
                  (CARD_WIDTH - 120) 60 ''Bebas Neue'' ''400'' ''#ffd700'')
         @ [Restore])"

definition drawStat ::
  "(font \<Rightarrow> string \<Rightarrow> real) \<Rightarrow> string \<Rightarrow> string \<Rightarrow> real \<Rightarrow> canvas_op list" where
  "drawStat tw label val y =
     [BeginPath,
      MoveTo (CARD_WIDTH * 0.2) (y - 30),
      LineTo (CARD_WIDTH * 0.8) (y - 30),
      SetStrokeStyle (Color ''#ffd700''),
      SetLineWidth 1,
      SetGlobalAlpha 0.3,
      Stroke,
      SetGlobalAlpha 1.0,
      SetTextAlign ''center'',
      SetFont (mkFont ''400'' 20 ''Bebas Neue''),
      SetFillStyle (Color ''#ffd700''),
      FillText label (CARD_WIDTH / 2) (y - 5)]
     @ snd (drawTextWithFit tw (toUpperCase val) (CARD_WIDTH / 2) (y + 25)
              (CARD_WIDTH - 160) 24 ''Montserrat'' ''600'' ''#ffffff'')"

definition statsOps :: "(font \<Rightarrow> string \<Rightarrow> real) \<Rightarrow> PlayerData \<Rightarrow> canvas_op list" where
  "statsOps tw player =
     (let statsStartY = 590;
          statsGap = 58
      in drawStat tw ''ROLE'' (role player) statsStartY
         @ drawStat tw ''BATTING'' (battingStyle player) (statsStartY + statsGap)
         @ drawStat tw ''BOWLING'' (bowlingStyle player) (statsStartY + statsGap * 2))"

definition goldBorderOps :: "canvas_op list" where
  "goldBorderOps =
     [Save]
     @ drawShieldPath CARD_WIDTH CARD_HEIGHT
     @ [SetLineWidth 15,
        SetStrokeStyle (Color ''#ffd700''),
        Stroke,
        SetLineWidth 2,
        SetStrokeStyle (Color ''#fff8dc''),
        Stroke,
        Restore]"

definition clippedOps ::
  "(font \<Rightarrow> string \<Rightarrow> real) \<Rightarrow> (nat \<Rightarrow> real) \<Rightarrow> PlayerData \<Rightarrow> image \<Rightarrow> image \<Rightarrow> image
     \<Rightarrow> canvas_op list" where
  "clippedOps tw rnd player playerImg agrasenImg logoImg =
     [Save]
     @ drawShieldPath CARD_WIDTH CARD_HEIGHT
     @ [Clip]
     @ backgroundOps rnd
     @ playerImageOps playerImg
     @ sidebarOps tw player agrasenImg logoImg
     @ playerNameOps tw player
     @ statsOps tw player
     @ [Restore]"

definition generateCard :: "env \<Rightarrow> PlayerData \<Rightarrow> string \<Rightarrow> string \<Rightarrow> string + canvas" where
  "generateCard e player agrasenUrl logoUrl =
     (if \<not> cardContext e then Inl ''Could not get canvas context''
      else
        case fst (loadImage (imageEvent e (imageUrl player)) (placeholderContext e)
                    (imageUrl player)) of
          Inl err \<Rightarrow> Inl err
        | Inr playerImg \<Rightarrow>
        case fst (loadImage (imageEvent e agrasenUrl) (placeholderContext e) agrasenUrl) of
          Inl err \<Rightarrow> Inl err
        | Inr agrasenImg \<Rightarrow>
        case fst (loadImage (imageEvent e logoUrl) (placeholderContext e) logoUrl) of
          Inl err \<Rightarrow> Inl err
        | Inr logoImg \<Rightarrow>
            Inr \<lparr>canvasWidth = CARD_WIDTH,
                 canvasHeight = CARD_HEIGHT,
                 canvasOps =
                   clippedOps (textWidth e) (mathRandom e) player playerImg agrasenImg logoImg
                   @ goldBorderOps\<rparr>)"

section \<open>What the canvas does with the operations\<close>

text \<open>
  The part of the 2D context's behaviour that the generator relies on. The drawing state
  holds the clipping region (the list of paths it was intersected with) and the
  properties the generator assigns; \<^verbatim>\<open>save\<close> pushes the drawing state and
  \<^verbatim>\<open>restore\<close> pops it (and does nothing on an empty stack); the current path is not
  part of the drawing state. Every operation that paints is recorded with the drawing
  state and the current path it painted with. A fresh context has the default values of
  the HTML standard. Every font the generator assigns is taken to be a valid CSS font
  (the browser ignores the assignment of an invalid one).
\<close>

record drawing_state =
  clipPaths :: "canvas_op list list"
  fillStyle :: style
  strokeStyle :: style
  lineWidth :: real
  globalAlpha :: real
  shadowColor :: string
  shadowBlur :: real
  font :: font
  textAlign :: string
  textBaseline :: string

datatype painted = Painted canvas_op drawing_state "canvas_op list"

record ctx_state =
  current :: drawing_state
  path :: "canvas_op list"
  saved :: "drawing_state list"
  paints :: "painted list"

definition paint :: "canvas_op \<Rightarrow> ctx_state \<Rightarrow> ctx_state" where
  "paint op c = c\<lparr>paints := paints c @ [Painted op (current c) (path c)]\<rparr>"

definition addToPath :: "canvas_op \<Rightarrow> ctx_state \<Rightarrow> ctx_state" where
  "addToPath op c = c\<lparr>path := path c @ [op]\<rparr>"

fun exec :: "canvas_op \<Rightarrow> ctx_state \<Rightarrow> ctx_state" where
  "exec Save c = c\<lparr>saved := current c # saved c\<rparr>"
| "exec Restore c =
     (case saved c of
        [] \<Rightarrow> c
      | s # ss \<Rightarrow> c\<lparr>current := s, saved := ss\<rparr>)"
| "exec BeginPath c = c\<lparr>path := []\<rparr>"
| "exec (MoveTo x y) c = addToPath (MoveTo x y) c"
| "exec (LineTo x y) c = addToPath (LineTo x y) c"
| "exec (QuadraticCurveTo cx cy x y) c = addToPath (QuadraticCurveTo cx cy x y) c"
| "exec (Arc x y r a b) c = addToPath (Arc x y r a b) c"
| "exec ClosePath c = addToPath ClosePath c"
| "exec Clip c = c\<lparr>current := (current c)\<lparr>clipPaths := path c # clipPaths (current c)\<rparr>\<rparr>"
| "exec Stroke c = paint Stroke c"
| "exec (FillRect x y w h) c = paint (FillRect x y w h) c"
| "exec (FillText t x y) c = paint (FillText t x y) c"
| "exec (DrawImage i x y w h) c = paint (DrawImage i x y w h) c"
| "exec (SetFillStyle s) c = c\<lparr>current := (current c)\<lparr>fillStyle := s\<rparr>\<rparr>"
| "exec (SetStrokeStyle s) c = c\<lparr>current := (current c)\<lparr>strokeStyle := s\<rparr>\<rparr>"
| "exec (SetLineWidth w) c = c\<lparr>current := (current c)\<lparr>lineWidth := w\<rparr>\<rparr>"
| "exec (SetGlobalAlpha a) c = c\<lparr>current := (current c)\<lparr>globalAlpha := a\<rparr>\<rparr>"
| "exec (SetShadowColor s) c = c\<lparr>current := (current c)\<lparr>shadowColor := s\<rparr>\<rparr>"
| "exec (SetShadowBlur b) c = c\<lparr>current := (current c)\<lparr>shadowBlur := b\<rparr>\<rparr>"
| "exec (SetFont f) c = c\<lparr>current := (current c)\<lparr>font := f\<rparr>\<rparr>"
| "exec (SetTextAlign a) c = c\<lparr>current := (current c)\<lparr>textAlign := a\<rparr>\<rparr>"
| "exec (SetTextBaseline b) c = c\<lparr>current := (current c)\<lparr>textBaseline := b\<rparr>\<rparr>"

definition run :: "canvas_op list \<Rightarrow> ctx_state \<Rightarrow> ctx_state" where
  "run ops c = fold exec ops c"

definition defaultState :: drawing_state where
  "defaultState =
     \<lparr>clipPaths = [],
      fillStyle = Color ''#000000'',
      strokeStyle = Color ''#000000'',
      lineWidth = 1,
      globalAlpha = 1,
      shadowColor = ''rgba(0, 0, 0, 0)'',
      shadowBlur = 0,
      font = mkFont ''normal'' 10 ''sans-serif'',
      textAlign = ''start'',
      textBaseline = ''alphabetic''\<rparr>"

definition freshContext :: ctx_state where
  "freshContext = \<lparr>current = defaultState, path = [], saved = [], paints = []\<rparr>"

text \<open>The shield as a path: what \<^verbatim>\<open>drawShieldPath\<close> leaves as the current path.\<close>

definition shieldOutline :: "canvas_op list" where
  "shieldOutline = tl (drawShieldPath CARD_WIDTH CARD_HEIGHT)"

fun stateOf :: "painted \<Rightarrow> drawing_state" where
  "stateOf (Painted op st p) = st"

fun opOf :: "painted \<Rightarrow> canvas_op" where
  "opOf (Painted op st p) = op"

text \<open>
  The text a context has painted: the \<^verbatim>\<open>fillText\<close> calls among its paints, in order,
  each with the font that was current when it painted.
\<close>

fun isFillText :: "canvas_op \<Rightarrow> bool" where
  "isFillText (FillText t x y) = True"
| "isFillText _ = False"

definition textPaints :: "painted list \<Rightarrow> (canvas_op \<times> font) list" where
  "textPaints evs =
     map (\<lambda>ev. (opOf ev, font (stateOf ev))) (filter (\<lambda>ev. isFillText (opOf ev)) evs)"

section \<open>The batch driver: \<^verbatim>\<open>handleForgeCards\<close> and \<^verbatim>\<open>handleProcess\<close>\<close>

datatype ProcessStatus = IDLE | PARSING | REVIEW | GENERATING | COMPLETED | ERROR

record GeneratedCard =
  playerId :: string
  dataUrl :: canvas
  scoutReport :: "string option"

record CardAssets =
  excelFile :: "string option"
  agrasenImage :: "string option"
  logoImage :: "string option"
  localImageMap :: "string \<rightharpoonup> string"

text \<open>The component's state variables (\<^verbatim>\<open>useState\<close>) that the two handlers write.\<close>

record app =
  players :: "PlayerData list"
  generatedCards :: "GeneratedCard list"
  status :: ProcessStatus
  errorMessage :: "string option"
  selectedCard :: "GeneratedCard option"

definition truthy :: "string option \<Rightarrow> bool" where
  "truthy x \<longleftrightarrow> (case x of None \<Rightarrow> False | Some s \<Rightarrow> s \<noteq> [])"

text \<open>
  \<^verbatim>\<open>localImageMap\<close> is a plain object, and \<^verbatim>\<open>assets.localImageMap[key]\<close> is a property
  read: it finds the object's own entry for the key and, when there is none, what
  \<^verbatim>\<open>Object.prototype\<close> has under that name. The record field holds the own entries.
  An inherited member is a function (for \<^verbatim>\<open>__proto__\<close> the prototype object), which is
  truthy; the handler passes it on as the image source, where it is only tested for
  truthiness, put into a message and assigned to \<^verbatim>\<open>img.src\<close>, so it is represented by the
  string it converts to there (\<open>inheritedText\<close>, in the form V8 prints a built-in
  function).
\<close>

definition prototypeKeys :: "string list" where
  "prototypeKeys =
     [''constructor'', ''__defineGetter__'', ''__defineSetter__'', ''hasOwnProperty'',
      ''__lookupGetter__'', ''__lookupSetter__'', ''isPrototypeOf'', ''propertyIsEnumerable'',
      ''toString'', ''valueOf'', ''__proto__'', ''toLocaleString'']"

definition inheritedText :: "string \<Rightarrow> string" where
  "inheritedText key =
     (if key = ''__proto__'' then ''[object Object]''
      else ''function '' @ (if key = ''constructor'' then ''Object'' else key)
           @ ''() { [native code] }'')"

definition objectLookup :: "(string \<rightharpoonup> string) \<Rightarrow> string \<Rightarrow> string option" where
  "objectLookup obj key =
     (case obj key of
        Some v \<Rightarrow> Some v
      | None \<Rightarrow> if key \<in> set prototypeKeys then Some (inheritedText key) else None)"

definition getPlayerImageSource :: "CardAssets \<Rightarrow> PlayerData \<Rightarrow> string option" where
  "getPlayerImageSource assets player =
     (if truthy (manualImage player) then manualImage player
      else
        let excelValue = trim (imageUrl player) in
        if truthy (objectLookup (localImageMap assets) excelValue)
        then objectLookup (localImageMap assets) excelValue
        else
          let nameNoExt = takeWhile (\<lambda>c. c \<noteq> CHR ''.'') excelValue in
          if truthy (objectLookup (localImageMap assets) nameNoExt)
          then objectLookup (localImageMap assets) nameNoExt
          else if startsWith (imageUrl player) ''http'' \<or> startsWith (imageUrl player) ''data:''
          then Some (imageUrl player)
          else None)"

text \<open>
  The compositor is called once per loop iteration and is awaited before the next
  iteration. Its outcome depends on the environment of that call, so the loops take it
  as a function \<open>gen\<close> of the call's position in the batch; \<open>Inl\<close> is a rejected
  promise, which leaves the loop for the handler's \<^verbatim>\<open>catch\<close>. The loop state is the
  local array \<^verbatim>\<open>cards\<close> and the component state; the loops return the error that
  ended them, if any, with that state.
\<close>

fun forgeLoop ::
  "(nat \<Rightarrow> PlayerData \<Rightarrow> string \<Rightarrow> string \<Rightarrow> string + canvas) \<Rightarrow> CardAssets \<Rightarrow> string \<Rightarrow> string
     \<Rightarrow> nat \<Rightarrow> PlayerData list \<Rightarrow> GeneratedCard list \<times> app
     \<Rightarrow> string option \<times> GeneratedCard list \<times> app" where
  "forgeLoop gen assets agrasen logo i [] (cards, st) = (None, cards, st)"
| "forgeLoop gen assets agrasen logo i (player # rest) (cards, st) =
     (let finalSource = stringOr (getPlayerImageSource assets player) [] in
      case gen i (player\<lparr>imageUrl := finalSource\<rparr>) agrasen logo of
        Inl err \<Rightarrow> (Some err, cards, st)
      | Inr url \<Rightarrow>
          let cards' = cards @ [\<lparr>playerId = id' player, dataUrl = url, scoutReport = None\<rparr>]
          in forgeLoop gen assets agrasen logo (i + 1) rest
               (cards', st\<lparr>generatedCards := cards'\<rparr>))"

definition handleForgeCards ::
  "(nat \<Rightarrow> PlayerData \<Rightarrow> string \<Rightarrow> string \<Rightarrow> string + canvas) \<Rightarrow> CardAssets \<Rightarrow> app \<Rightarrow> app" where
  "handleForgeCards gen assets st =
     (if \<not> truthy (agrasenImage assets) \<or> \<not> truthy (logoImage assets) then
        st\<lparr>errorMessage :=
             Some ''Please upload the Agrasen Portrait and Tournament Logo before generating.''\<rparr>
      else
        case forgeLoop gen assets (the (agrasenImage assets)) (the (logoImage assets)) 0
               (players st) ([], st\<lparr>status := GENERATING\<rparr>) of
          (None, cards, st') \<Rightarrow>
            (if cards \<noteq> [] then st'\<lparr>status := COMPLETED, selectedCard := Some (hd cards)\<rparr>
             else st'\<lparr>status := COMPLETED\<rparr>)
        | (Some err, cards, st') \<Rightarrow> st'\<lparr>status := ERROR, errorMessage := Some err\<rparr>)"

fun processLoop ::
  "(nat \<Rightarrow> PlayerData \<Rightarrow> string \<Rightarrow> string \<Rightarrow> string + canvas) \<Rightarrow> string \<Rightarrow> string
     \<Rightarrow> nat \<Rightarrow> PlayerData list \<Rightarrow> GeneratedCard list \<times> app
     \<Rightarrow> string option \<times> GeneratedCard list \<times> app" where
  "processLoop gen agrasen logo i [] (cards, st) = (None, cards, st)"
| "processLoop gen agrasen logo i (player # rest) (cards, st) =
     (case gen i player agrasen logo of
        Inl err \<Rightarrow> (Some err, cards, st)
      | Inr url \<Rightarrow>
          let cards' = cards @ [\<lparr>playerId = id' player, dataUrl = url, scoutReport = None\<rparr>]
          in processLoop gen agrasen logo (i + 1) rest (cards', st\<lparr>generatedCards := cards'\<rparr>))"

text \<open>
  \<^verbatim>\<open>handleProcess\<close> parses the sheet first; \<open>parsed\<close> is what
  \<^verbatim>\<open>await parseExcelFile(assets.excelFile)\<close> settles with.
\<close>

definition handleProcess ::
  "(nat \<Rightarrow> PlayerData \<Rightarrow> string \<Rightarrow> string \<Rightarrow> string + canvas) \<Rightarrow> CardAssets
     \<Rightarrow> string + PlayerData list \<Rightarrow> app \<Rightarrow> app" where
  "handleProcess gen assets parsed st =
     (if excelFile assets = None \<or> \<not> truthy (agrasenImage assets) \<or> \<not> truthy (logoImage assets)
      then st
      else
        case parsed of
          Inl err \<Rightarrow> st\<lparr>status := ERROR\<rparr>
        | Inr parsedPlayers \<Rightarrow>
            (case processLoop gen (the (agrasenImage assets)) (the (logoImage assets)) 0
                    parsedPlayers ([], st\<lparr>players := parsedPlayers, status := GENERATING\<rparr>) of
               (None, cards, st') \<Rightarrow>
                 (if cards \<noteq> [] then st'\<lparr>status := COMPLETED, selectedCard := Some (hd cards)\<rparr>
                  else st'\<lparr>status := COMPLETED\<rparr>)
             | (Some err, cards, st') \<Rightarrow> st'\<lparr>status := ERROR\<rparr>))"

section \<open>Sample inputs\<close>

text \<open>
  An environment in which every context is available, every image fails to load, the
  random source is constant and every character is one em wide; the same environment
  without a drawing context for the card; and two roster rows.
\<close>

definition sampleEnv :: env where
  "sampleEnv =
     \<lparr>cardContext = True,
      placeholderContext = True,
      imageEvent = (\<lambda>src. OnError),
      mathRandom = (\<lambda>k. 1 / 2),
      textWidth = emWidth\<rparr>"

definition noContextEnv :: env where
  "noContextEnv = sampleEnv\<lparr>cardContext := False\<rparr>"

definition kohliRow :: row where
  "kohliRow =
     [(''Player Name'', ''Virat Kohli''),
      (''Role'', ''Batsman''),
      (''Batting Style'', ''Right Handed Bat''),
      (''Bowling Style'', ''Right-arm medium''),
      (''Form Number'', ''n/a''),
      (''Image URL'', ''kohli.jpg'')]"

definition bowlerRow :: row where
  "bowlerRow =
     [(''Player Name'', ''Sample Bowler''),
      (''Role'', ''Bowler''),
      (''Batting Style'', ''Left Handed Bat''),
      (''Bowling Style'', ''Left-arm fast''),
      (''Form Number'', ''0''),
      (''Image URL'', ''bowler_1'')]"

definition sampleAssets :: CardAssets where
  "sampleAssets =
     \<lparr>excelFile = Some ''roster.xlsx'',
      agrasenImage = Some ''data:image/png;base64,AAAA'',
      logoImage = Some ''data:image/png;base64,BBBB'',
      localImageMap = Map.empty\<rparr>"

definition sampleApp :: app where
  "sampleApp =
     \<lparr>players = [parseRow kohliRow 0, parseRow bowlerRow 1],
      generatedCards = [],
      status = REVIEW,
      errorMessage = None,
      selectedCard = None\<rparr>"

text \<open>
  Two batches: in the first every composition gets the sample environment, in the second
  the composition of the second player gets no drawing context.
\<close>

definition sampleGen :: "nat \<Rightarrow> PlayerData \<Rightarrow> string \<Rightarrow> string \<Rightarrow> string + canvas" where
  "sampleGen i = generateCard sampleEnv"

definition failingGen :: "nat \<Rightarrow> PlayerData \<Rightarrow> string \<Rightarrow> string \<Rightarrow> string + canvas" where
  "failingGen i = generateCard (if i = 1 then noContextEnv else sampleEnv)"

section \<open>Properties of the adaptive text fit\<close>

lemma fitLoop_append:
  "fitLoop m t w fw ff (fs, ops @ ops') =
     (fst (fitLoop m t w fw ff (fs, ops')), ops @ snd (fitLoop m t w fw ff (fs, ops')))"
proof (induction m t w fw ff "(fs, ops')" arbitrary: fs ops ops' rule: fitLoop.induct)
  case (1 m t w fw ff fs ops')
  show ?case
  proof (cases "m (mkFont fw fs ff) t > w \<and> fs > 14")
    case True
    have a: "fitLoop m t w fw ff (fs, ops @ ops') =
          fitLoop m t w fw ff (fs - 2, ops @ (ops' @ [SetFont (mkFont fw (fs - 2) ff)]))"
      using True by (subst fitLoop.simps) simp
    have b: "fitLoop m t w fw ff (fs, ops') =
          fitLoop m t w fw ff (fs - 2, ops' @ [SetFont (mkFont fw (fs - 2) ff)])"
      using True by (subst fitLoop.simps) simp
    show ?thesis
      unfolding a b by (rule "1.hyps"[OF True])
  next
    case False
    then show ?thesis by (subst (1 2 3) fitLoop.simps) auto
  qed
qed

lemma fitLoop_ops:
  "fitLoop m t w fw ff (fs, ops) =
     (fst (fitLoop m t w fw ff (fs, [])), ops @ snd (fitLoop m t w fw ff (fs, [])))"
  using fitLoop_append [of m t w fw ff fs ops "[]"] by simp

lemma fitLoop_size_step:
  "m (mkFont fw fs ff) t > w \<Longrightarrow> fs > 14 \<Longrightarrow>
   fst (fitLoop m t w fw ff (fs, ops)) = fst (fitLoop m t w fw ff (fs - 2, ops'))"
  by (subst fitLoop.simps, subst fitLoop_ops, subst (2) fitLoop_ops) simp

lemma fitLoop_size_stop:
  "\<not> (m (mkFont fw fs ff) t > w \<and> fs > 14) \<Longrightarrow> fitLoop m t w fw ff (fs, ops) = (fs, ops)"
  by (subst fitLoop.simps) auto

lemma stopSize_le: "stopSize fs \<le> fs"
proof (cases "fs \<le> 14")
  case True
  then show ?thesis by (simp add: stopSize_def)
next
  case False
  then have "0 < \<lceil>(fs - 14) / 2\<rceil>" by simp
  then have "(0::real) < of_int \<lceil>(fs - 14) / 2\<rceil>" by (simp only: of_int_0_less_iff)
  with False show ?thesis by (simp add: stopSize_def)
qed

lemma stopSize_floor:
  assumes "14 < fs"
  shows "12 < stopSize fs" "stopSize fs \<le> 14"
proof -
  define c where "c = real_of_int \<lceil>(fs - 14) / 2\<rceil>"
  have "c - 1 < (fs - 14) / 2" "(fs - 14) / 2 \<le> c"
    unfolding c_def using ceiling_correct [of "(fs - 14) / 2"] by simp_all
  then have "12 < fs - 2 * c" "fs - 2 * c \<le> 14"
    by (simp_all add: field_simps)
  moreover have "stopSize fs = fs - 2 * c"
    using assms by (simp add: stopSize_def c_def)
  ultimately show "12 < stopSize fs" "stopSize fs \<le> 14"
    by simp_all
qed

lemma stopSize_step:
  assumes "14 < fs"
  shows "stopSize (fs - 2) = stopSize fs"
proof (cases "fs - 2 \<le> 14")
  case True
  with assms have "0 < (fs - 14) / 2" "(fs - 14) / 2 \<le> 1" by simp_all
  then have "\<lceil>(fs - 14) / 2\<rceil> = 1" by (intro ceiling_unique) simp_all
  with True assms show ?thesis by (simp add: stopSize_def)
next
  case False
  have "(fs - 2 - 14) / 2 = (fs - 14) / 2 - 1" by (simp add: field_simps)
  then have "\<lceil>(fs - 2 - 14) / 2\<rceil> = \<lceil>(fs - 14) / 2\<rceil> - 1" by (simp only: ceiling_diff_one)
  with False assms show ?thesis by (simp add: stopSize_def)
qed

lemma stopSize_of_int:
  "stopSize (of_int n) = (if n \<le> 14 then of_int n else if even n then 14 else 13)"
proof (cases "n \<le> 14")
  case True
  then show ?thesis by (simp add: stopSize_def)
next
  case False
  show ?thesis
  proof (cases "even n")
    case True
    then obtain k where n: "n = 2 * k" by (elim evenE)
    have "(real_of_int n - 14) / 2 = of_int (k - 7)" by (simp add: n)
    then have "\<lceil>(real_of_int n - 14) / 2\<rceil> = k - 7" by (simp only: ceiling_of_int)
    with False True show ?thesis by (simp add: stopSize_def n)
  next
    case odd: False
    then obtain k where n: "n = 2 * k + 1" by (elim oddE)
    have "of_int (k - 6) - 1 < (real_of_int n - 14) / 2" "(real_of_int n - 14) / 2 \<le> of_int (k - 6)"
      by (simp_all add: n)
    then have "\<lceil>(real_of_int n - 14) / 2\<rceil> = k - 6" by (rule ceiling_unique)
    with False odd show ?thesis by (simp add: stopSize_def n)
  qed
qed



lemma fitLoop_count:
  "\<exists>n. fitLoop m t w fw ff (fs, ops) =
     (fs - 2 * real n, ops @ map (\<lambda>k. SetFont (mkFont fw (fs - 2 * (real k + 1)) ff)) [0..<n])"
proof (induction m t w fw ff "(fs, ops)" arbitrary: fs ops rule: fitLoop.induct)
  case (1 m t w fw ff fs ops)
  show ?case
  proof (cases "m (mkFont fw fs ff) t > w \<and> fs > 14")
    case True
    have eq: "fitLoop m t w fw ff (fs, ops) =
        fitLoop m t w fw ff (fs - 2, ops @ [SetFont (mkFont fw (fs - 2) ff)])"
      using True by (subst fitLoop.simps) simp
    from "1.hyps"[OF True] obtain n where
      n: "fitLoop m t w fw ff (fs - 2, ops @ [SetFont (mkFont fw (fs - 2) ff)]) =
        (fs - 2 - 2 * real n,
         (ops @ [SetFont (mkFont fw (fs - 2) ff)])
         @ map (\<lambda>k. SetFont (mkFont fw (fs - 2 - 2 * (real k + 1)) ff)) [0..<n])"
      by blast
    have a: "\<And>k. fs - 2 - 2 * (real k + 1) = fs - 2 * (real (Suc k) + 1)"
      by simp
    have "fitLoop m t w fw ff (fs, ops) =
      (fs - 2 * real (Suc n),
       ops @ map (\<lambda>k. SetFont (mkFont fw (fs - 2 * (real k + 1)) ff)) [0..<Suc n])"
      unfolding eq n map_upt_Suc a by simp
    then show ?thesis by blast
  next
    case False
    then have "fitLoop m t w fw ff (fs, ops) =
      (fs - 2 * real 0, ops @ map (\<lambda>k. SetFont (mkFont fw (fs - 2 * (real k + 1)) ff)) [0..<0])"
      by (simp add: fitLoop_size_stop)
    then show ?thesis by blast
  qed
qed

lemma fitLoop_fonts:
  "snd (fitLoop m t w fw ff (fs, [])) =
     map (\<lambda>k. SetFont (mkFont fw (fs - 2 * (real k + 1)) ff))
       [0..<length (snd (fitLoop m t w fw ff (fs, [])))]"
proof -
  from fitLoop_count [of m t w fw ff fs "[]"] obtain n where
    "fitLoop m t w fw ff (fs, []) =
       (fs - 2 * real n, [] @ map (\<lambda>k. SetFont (mkFont fw (fs - 2 * (real k + 1)) ff)) [0..<n])"
    by blast
  then show ?thesis by simp
qed

lemma fitLoop_size_eq:
  "fst (fitLoop m t w fw ff (fs, [])) =
     fs - 2 * real (length (snd (fitLoop m t w fw ff (fs, []))))"
proof -
  from fitLoop_count [of m t w fw ff fs "[]"] obtain n where
    "fitLoop m t w fw ff (fs, []) =
       (fs - 2 * real n, [] @ map (\<lambda>k. SetFont (mkFont fw (fs - 2 * (real k + 1)) ff)) [0..<n])"
    by blast
  then show ?thesis by simp
qed

lemma fitLoop_size_le:
  "fst (fitLoop m t w fw ff (fs, ops)) \<le> fs"
proof -
  have "fst (fitLoop m t w fw ff (fs, ops)) = fst (fitLoop m t w fw ff (fs, []))"
    by (subst fitLoop_ops) simp
  also have "\<dots> \<le> fs"
    by (subst fitLoop_size_eq) simp
  finally show ?thesis .
qed

lemma fitLoop_size_ge:
  "stopSize fs \<le> fst (fitLoop m t w fw ff (fs, ops))"
proof (induction m t w fw ff "(fs, ops)" arbitrary: fs ops rule: fitLoop.induct)
  case (1 m t w fw ff fs ops)
  show ?case
  proof (cases "m (mkFont fw fs ff) t > w \<and> fs > 14")
    case True
    then have "fst (fitLoop m t w fw ff (fs, ops)) =
        fst (fitLoop m t w fw ff (fs - 2, ops @ [SetFont (mkFont fw (fs - 2) ff)]))"
      by (simp add: fitLoop_size_step)
    moreover have "stopSize (fs - 2) = stopSize fs"
      using True by (simp add: stopSize_step)
    ultimately show ?thesis using "1.hyps"[OF True] by simp
  next
    case False
    then show ?thesis by (simp add: fitLoop_size_stop stopSize_le)
  qed
qed

lemma fitLoop_fits_or_floor:
  "14 < fst (fitLoop m t w fw ff (fs, ops)) \<Longrightarrow>
   m (mkFont fw (fst (fitLoop m t w fw ff (fs, ops))) ff) t \<le> w"
proof (induction m t w fw ff "(fs, ops)" arbitrary: fs ops rule: fitLoop.induct)
  case (1 m t w fw ff fs ops)
  show ?case
  proof (cases "m (mkFont fw fs ff) t > w \<and> fs > 14")
    case True
    then have "fst (fitLoop m t w fw ff (fs, ops)) =
        fst (fitLoop m t w fw ff (fs - 2, ops @ [SetFont (mkFont fw (fs - 2) ff)]))"
      by (simp add: fitLoop_size_step)
    with "1.hyps"[OF True] "1.prems" show ?thesis by simp
  next
    case False
    with "1.prems" show ?thesis by (auto simp: fitLoop_size_stop)
  qed
qed


lemma fitLoop_low_is_stop:
  assumes "fst (fitLoop m t w fw ff (fs, [])) \<le> 14"
  shows "fst (fitLoop m t w fw ff (fs, [])) = stopSize fs"
proof -
  let ?r = "fst (fitLoop m t w fw ff (fs, []))"
  let ?n = "length (snd (fitLoop m t w fw ff (fs, [])))"
  have r: "?r = fs - 2 * real ?n" by (rule fitLoop_size_eq)
  have b: "stopSize fs \<le> ?r" by (rule fitLoop_size_ge)
  have c: "?r \<le> fs" by (rule fitLoop_size_le)
  show ?thesis
  proof (cases "fs \<le> 14")
    case True
    with b c show ?thesis by (simp add: stopSize_def)
  next
    case False
    from assms r have "(fs - 14) / 2 \<le> of_int (int ?n)" by simp
    then have 1: "\<lceil>(fs - 14) / 2\<rceil> \<le> int ?n" by (simp only: ceiling_le_iff)
    from b r False have "real ?n \<le> of_int \<lceil>(fs - 14) / 2\<rceil>" by (simp add: stopSize_def)
    then have "real_of_int (int ?n) \<le> of_int \<lceil>(fs - 14) / 2\<rceil>" by simp
    then have 2: "int ?n \<le> \<lceil>(fs - 14) / 2\<rceil>" by (simp only: of_int_le_iff)
    from 1 2 have "\<lceil>(fs - 14) / 2\<rceil> = int ?n" by simp
    with False r show ?thesis by (simp add: stopSize_def)
  qed
qed

lemma fitLoop_unfit_floor:
  assumes "\<not> m (mkFont fw (fst (fitLoop m t w fw ff (fs, []))) ff) t \<le> w"
  shows "fst (fitLoop m t w fw ff (fs, [])) = stopSize fs"
proof -
  have "fst (fitLoop m t w fw ff (fs, [])) \<le> 14"
    using assms fitLoop_fits_or_floor [of m t w fw ff fs "[]"] by force
  then show ?thesis by (rule fitLoop_low_is_stop)
qed

lemma fitLoop_iterations_bound:
  "int (length (snd (fitLoop m t w fw ff (fs, [])))) \<le> max 0 \<lceil>(fs - 14) / 2\<rceil>"
proof -
  let ?r = "fst (fitLoop m t w fw ff (fs, []))"
  let ?n = "length (snd (fitLoop m t w fw ff (fs, [])))"
  have r: "?r = fs - 2 * real ?n" by (rule fitLoop_size_eq)
  have b: "stopSize fs \<le> ?r" by (rule fitLoop_size_ge)
  show ?thesis
  proof (cases "fs \<le> 14")
    case True
    with b r have "?n = 0" by (simp add: stopSize_def)
    then show ?thesis by simp
  next
    case False
    from b r False have "real ?n \<le> of_int \<lceil>(fs - 14) / 2\<rceil>" by (simp add: stopSize_def)
    then have "real_of_int (int ?n) \<le> of_int \<lceil>(fs - 14) / 2\<rceil>" by simp
    then have "int ?n \<le> \<lceil>(fs - 14) / 2\<rceil>" by (simp only: of_int_le_iff)
    then show ?thesis by simp
  qed
qed

lemma drawTextWithFit_eq:
  "drawTextWithFit m t x y w fs ff fw color =
     (fst (fitLoop m t w fw ff (fs, [])),
      [Save, SetTextAlign ''center'', SetTextBaseline ''alphabetic'', SetFillStyle (Color color),
       SetFont (mkFont fw fs ff)]
      @ snd (fitLoop m t w fw ff (fs, [])) @ [FillText t x y, Restore])"
  unfolding drawTextWithFit_def
  by (subst fitLoop_ops) simp



lemma fitLoop_above_12:
  "fst (fitLoop m t w fw ff (fs, [])) = fs \<or> 12 < fst (fitLoop m t w fw ff (fs, []))"
proof (cases "fs \<le> 14")
  case True
  then show ?thesis by (simp add: fitLoop_size_stop)
next
  case False
  then have "12 < stopSize fs" by (simp add: stopSize_floor)
  with fitLoop_size_ge [of fs m t w fw ff "[]"] show ?thesis by simp
qed

lemma fitLoop_whole_ge_13:
  assumes "fs \<in> \<int>"
  shows "min fs 13 \<le> fst (fitLoop m t w fw ff (fs, []))"
proof -
  from assms obtain z where z: "fs = of_int z" by (elim Ints_cases)
  have "min (real_of_int z) 13 \<le> stopSize (of_int z)"
    by (simp add: stopSize_of_int)
  with fitLoop_size_ge [of fs m t w fw ff "[]"] show ?thesis
    unfolding z by linarith
qed

text \<open>
  C9 (as amended). For an initial size up to \<open>2^54\<close>, the range in which the loop's
  subtraction is exact on doubles, the shrink loop of \<^verbatim>\<open>drawTextWithFit\<close> terminates:
  \<open>fitLoop\<close> is a total function, accepted with the measure \<open>\<lceil>fontSize - 14\<rceil>\<close>, which
  every iteration decreases because the guard requires \<open>fontSize > 14\<close> and the body
  subtracts 2. Each iteration assigns one font, so the loop runs as often as it records
  a \<open>SetFont\<close>: the sizes assigned are \<open>initialFontSize - 2\<close>, \<open>initialFontSize - 4\<close>,
  ..., there are at most \<open>\<lceil>(initialFontSize - 14) / 2\<rceil>\<close> of them, and the size
  returned is the initial size or else above 12. When the initial size is a whole number
  the size returned is at least \<open>min initialFontSize 13\<close>; an odd initial size can settle at
  13: from 15, a text that never fits ends at 13.
\<close>

theorem fitLoop_terminates_in_range:
  assumes "initialFontSize \<le> 2 ^ 54"
  shows "fst (drawTextWithFit m t x y w initialFontSize ff fw color)
     = fst (fitLoop m t w fw ff (initialFontSize, []))
   \<and> snd (fitLoop m t w fw ff (initialFontSize, []))
     = map (\<lambda>k. SetFont (mkFont fw (initialFontSize - 2 * (real k + 1)) ff))
         [0..<length (snd (fitLoop m t w fw ff (initialFontSize, [])))]
   \<and> fst (fitLoop m t w fw ff (initialFontSize, []))
     = initialFontSize - 2 * real (length (snd (fitLoop m t w fw ff (initialFontSize, []))))
   \<and> int (length (snd (fitLoop m t w fw ff (initialFontSize, []))))
     \<le> max 0 \<lceil>(initialFontSize - 14) / 2\<rceil>
   \<and> fst (drawTextWithFit m t x y w initialFontSize ff fw color) \<le> initialFontSize
   \<and> (fst (drawTextWithFit m t x y w initialFontSize ff fw color) = initialFontSize
        \<or> 12 < fst (drawTextWithFit m t x y w initialFontSize ff fw color))
   \<and> (initialFontSize \<in> \<int> \<longrightarrow>
        min initialFontSize 13 \<le> fst (drawTextWithFit m t x y w initialFontSize ff fw color))
   \<and> fst (drawTextWithFit emWidth ''96'' 115 160 20 15 ''Oswald'' ''700'' ''#ffd700'') = 13"
proof -
  let ?r = "fst (fitLoop m t w fw ff (initialFontSize, []))"
  have a: "fst (drawTextWithFit m t x y w initialFontSize ff fw color) = ?r"
    by (simp add: drawTextWithFit_eq)
  have b: "snd (fitLoop m t w fw ff (initialFontSize, []))
     = map (\<lambda>k. SetFont (mkFont fw (initialFontSize - 2 * (real k + 1)) ff))
         [0..<length (snd (fitLoop m t w fw ff (initialFontSize, [])))]"
    by (rule fitLoop_fonts)
  have c: "?r = initialFontSize - 2 * real (length (snd (fitLoop m t w fw ff (initialFontSize, []))))"
    by (rule fitLoop_size_eq)
  have d: "int (length (snd (fitLoop m t w fw ff (initialFontSize, []))))
     \<le> max 0 \<lceil>(initialFontSize - 14) / 2\<rceil>"
    by (rule fitLoop_iterations_bound)
  have e: "?r \<le> initialFontSize"
    by (rule fitLoop_size_le)
  have f: "?r = initialFontSize \<or> 12 < ?r"
    by (rule fitLoop_above_12)
  have g: "initialFontSize \<in> \<int> \<longrightarrow> min initialFontSize 13 \<le> ?r"
    using fitLoop_whole_ge_13 by blast
  have h: "fst (drawTextWithFit emWidth ''96'' 115 160 20 15 ''Oswald'' ''700'' ''#ffd700'') = 13"
    by (simp add: drawTextWithFit_eq fitLoop.simps emWidth_def mkFont_def)
  show ?thesis
    unfolding a using b c d e f g h by blast
qed

theorem fitLoop_terminates_in_range_witness:
  "(24::real) \<le> 2 ^ 54 \<and> (24::real) \<in> \<int>
   \<and> int (length (snd (fitLoop emWidth ''RIGHT-ARM OFF BREAK'' 440 ''600'' ''Montserrat'' (24, []))))
       \<le> max 0 \<lceil>(24 - 14) / 2 :: real\<rceil>
   \<and> min 24 13 \<le> fst (drawTextWithFit emWidth ''RIGHT-ARM OFF BREAK'' 300 615 440 24
                        ''Montserrat'' ''600'' ''#ffffff'')
   \<and> snd (fitLoop emWidth ''RIGHT-ARM OFF BREAK'' 440 ''600'' ''Montserrat'' (24, []))
       = [SetFont (mkFont ''600'' 22 ''Montserrat'')]"
proof -
  have r: "(24::real) \<le> 2 ^ 54" "(24::real) \<in> \<int>"
    by simp_all
  have s: "snd (fitLoop emWidth ''RIGHT-ARM OFF BREAK'' 440 ''600'' ''Montserrat'' (24, []))
       = [SetFont (mkFont ''600'' 22 ''Montserrat'')]"
    by (simp add: fitLoop.simps emWidth_def mkFont_def)
  from fitLoop_terminates_in_range
         [OF r(1), of emWidth "''RIGHT-ARM OFF BREAK''" 300 615 440 "''Montserrat''" "''600''"
            "''#ffffff''"]
       r s
  show ?thesis by blast
qed

text \<open>
  The claim C9 as the specification states it fails: the size is a JavaScript number,
  and from the initial size 14.5 a text that does not fit (a 42-character name in a
  budget of 100, each character one em wide) is shrunk once, to 12.5, which is below
  \<open>min 14.5 13 = 13\<close>.
\<close>

theorem fitLoop_below_min_counterexample:
  "fst (drawTextWithFit emWidth ''WOLFESCHLEGELSTEINHAUSENBERGERDORFF SENIOR'' 115 160 100 14.5
          ''Oswald'' ''700'' ''#ffd700'') = 12.5
   \<and> (12.5::real) < min 14.5 13"
  by (simp add: drawTextWithFit_eq fitLoop.simps emWidth_def mkFont_def)




section \<open>Properties of the canvas operations\<close>

lemma run_append: "run (xs @ ys) c = run ys (run xs c)"
  by (simp add: run_def)

lemma run_Cons: "run (x # xs) c = run xs (exec x c)"
  by (simp add: run_def)

lemma run_Nil: "run [] c = c"
  by (simp add: run_def)

lemma run_fonts:
  "run (map (\<lambda>k. SetFont (g k)) [0..<n]) c =
     (if n = 0 then c else c\<lparr>current := (current c)\<lparr>font := g (n - 1)\<rparr>\<rparr>)"
  by (induction n) (simp_all add: run_append run_Cons run_Nil)

lemma run_text_ops:
  "run ([Save, SetTextAlign ''center'', SetTextBaseline ''alphabetic'', SetFillStyle (Color color),
         SetFont (mkFont fw fs ff)]
        @ map (\<lambda>k. SetFont (mkFont fw (fs - 2 * (real k + 1)) ff)) [0..<n]
        @ [FillText t x y, Restore]) c =
     c\<lparr>paints := paints c @
          [Painted (FillText t x y)
             ((current c)\<lparr>textAlign := ''center'', textBaseline := ''alphabetic'',
                          fillStyle := Color color,
                          font := mkFont fw (fs - 2 * real n) ff\<rparr>)
             (path c)]\<rparr>"
proof (cases n)
  case 0
  then show ?thesis
    by (simp add: run_append run_Cons run_Nil paint_def)
next
  case (Suc k)
  have "fs - 2 * (real k + 1) = fs - 2 * real (Suc k)" by simp
  then show ?thesis
    unfolding Suc
    by (simp only: run_append run_fonts) (simp add: run_Cons run_Nil paint_def add.commute)
qed

lemma run_drawTextWithFit:
  "run (snd (drawTextWithFit m t x y w fs ff fw color)) c =
     c\<lparr>paints := paints c @
          [Painted (FillText t x y)
             ((current c)\<lparr>textAlign := ''center'', textBaseline := ''alphabetic'',
                          fillStyle := Color color,
                          font := mkFont fw (fst (drawTextWithFit m t x y w fs ff fw color)) ff\<rparr>)
             (path c)]\<rparr>"
proof -
  let ?n = "length (snd (fitLoop m t w fw ff (fs, [])))"
  have "snd (drawTextWithFit m t x y w fs ff fw color) =
      [Save, SetTextAlign ''center'', SetTextBaseline ''alphabetic'', SetFillStyle (Color color),
       SetFont (mkFont fw fs ff)]
      @ map (\<lambda>k. SetFont (mkFont fw (fs - 2 * (real k + 1)) ff)) [0..<?n]
      @ [FillText t x y, Restore]"
    unfolding drawTextWithFit_eq snd_conv by (subst fitLoop_fonts) (rule refl)
  moreover have "fst (drawTextWithFit m t x y w fs ff fw color) = fs - 2 * real ?n"
    unfolding drawTextWithFit_eq fst_conv by (rule fitLoop_size_eq)
  ultimately show ?thesis
    by (simp only: run_text_ops)
qed

lemma drawTextWithFit_even_start:
  assumes "stopSize fs = 14"
  shows "14 \<le> fst (drawTextWithFit m t x y w fs ff fw color)"
    "fst (drawTextWithFit m t x y w fs ff fw color) \<le> fs"
    "m (mkFont fw (fst (drawTextWithFit m t x y w fs ff fw color)) ff) t \<le> w
       \<or> fst (drawTextWithFit m t x y w fs ff fw color) = 14"
proof -
  have a: "fst (drawTextWithFit m t x y w fs ff fw color) = fst (fitLoop m t w fw ff (fs, []))"
    by (simp add: drawTextWithFit_eq)
  show "14 \<le> fst (drawTextWithFit m t x y w fs ff fw color)"
    unfolding a using fitLoop_size_ge [of fs m t w fw ff "[]"] assms by simp
  show "fst (drawTextWithFit m t x y w fs ff fw color) \<le> fs"
    unfolding a by (rule fitLoop_size_le)
  show "m (mkFont fw (fst (drawTextWithFit m t x y w fs ff fw color)) ff) t \<le> w
       \<or> fst (drawTextWithFit m t x y w fs ff fw color) = 14"
    unfolding a using fitLoop_unfit_floor [of m fw t w ff fs] assms by auto
qed

section \<open>Properties of the asset resolver\<close>

text \<open>
  C3. \<^verbatim>\<open>loadImage\<close> never rejects: for every source, event and context availability
  its promise resolves with an image. For the empty source it resolves with the
  placeholder and starts no load; when the load fails it resolves with the placeholder.
\<close>

theorem loadImage_never_rejects:
  "(\<exists>img. fst (loadImage event ctx src) = Inr img)
   \<and> fst (loadImage event ctx []) = Inr (createPlaceholder ctx)
   \<and> (\<forall>s. StartLoad s \<notin> set (snd (loadImage event ctx [])))
   \<and> fst (loadImage OnError ctx src) = Inr (createPlaceholder ctx)"
  by (cases event) (simp_all add: loadImage_def)

text \<open>
  C8 (as amended). The placeholder is an image made from a 400 by 400 canvas of its own,
  not loaded from any source. When that canvas yields a 2D context the generator paints
  on it, in this order, a rectangle over the whole square in \<open>#2a0e45\<close>, a rectangle
  from (20, 20) of size 360 by 360 in \<open>#4a1d6e\<close>, and the text \<open>NO IMAGE\<close> at the
  centre (200, 200) in a bold 40px font, centred horizontally and vertically.
\<close>

theorem createPlaceholder_content:
  "(\<exists>ops. createPlaceholder ctx = CanvasImage 400 400 ops)
   \<and> (\<exists>ops. createPlaceholder True = CanvasImage 400 400 ops
        \<and> paints (run ops freshContext) =
            [Painted (FillRect 0 0 400 400) (defaultState\<lparr>fillStyle := Color ''#2a0e45''\<rparr>) [],
             Painted (FillRect 20 20 360 360) (defaultState\<lparr>fillStyle := Color ''#4a1d6e''\<rparr>) [],
             Painted (FillText ''NO IMAGE'' 200 200)
               (defaultState\<lparr>fillStyle := Color ''#ffd700'',
                  font := mkFont ''bold'' 40 ''sans-serif'',
                  textAlign := ''center'', textBaseline := ''middle''\<rparr>) []])"
  by (simp add: createPlaceholder_def run_Cons run_Nil freshContext_def paint_def)

text \<open>
  The claim C8 as the specification states it fails when the placeholder's canvas
  yields no 2D context: the drawing is skipped and the image is the blank 400 by 400
  canvas.
\<close>

theorem createPlaceholder_blank_counterexample:
  "createPlaceholder False = CanvasImage 400 400 []"
  by (simp add: createPlaceholder_def)

section \<open>Properties of the shield path\<close>

text \<open>
  C6. On the 600 by 850 canvas the shield path starts at (60, 85), runs along the top
  edge at 10% of the height to 90% of the width, down the right side to 70% of the
  height, then along two quadratic curves that meet at the apex at 50% of the width
  and 95% of the height and end on the left side at 10% of the width and 70% of the
  height, and is closed.
\<close>

theorem drawShieldPath_card:
  "drawShieldPath CARD_WIDTH CARD_HEIGHT =
     [BeginPath,
      MoveTo 60 85,
      LineTo 540 85,
      LineTo 540 595,
      QuadraticCurveTo 540 722.5 300 807.5,
      QuadraticCurveTo 60 722.5 60 595,
      ClosePath]
   \<and> 85 = 10 / 100 * CARD_HEIGHT \<and> 540 = 90 / 100 * CARD_WIDTH \<and> 595 = 70 / 100 * CARD_HEIGHT
   \<and> 300 = 50 / 100 * CARD_WIDTH \<and> 807.5 = 95 / 100 * CARD_HEIGHT
   \<and> 60 = 10 / 100 * CARD_WIDTH"
  by (simp add: drawShieldPath_def CARD_WIDTH_def CARD_HEIGHT_def)

section \<open>Properties of the card compositor\<close>

lemma upt_5: "[0..<5] = [0, 1, 2, 3, 4]"
  by code_simp

lemmas card_defs =
  clippedOps_def backgroundOps_def textureLine_def playerImageOps_def sidebarOps_def
  playerNameOps_def statsOps_def drawStat_def drawShieldPath_def
  CARD_WIDTH_def CARD_HEIGHT_def

lemmas run_simps = upt_5 run_append run_Cons run_Nil run_drawTextWithFit paint_def addToPath_def

lemma run_clippedOps_state:
  "current (run (clippedOps tw rnd p playerImg agrasenImg logoImg) freshContext) = defaultState"
  by (simp add: card_defs run_simps Let_def freshContext_def)

lemma run_clippedOps_clipped:
  "\<forall>ev \<in> set (paints (run (clippedOps tw rnd p playerImg agrasenImg logoImg) freshContext)).
     shieldOutline \<in> set (clipPaths (stateOf ev))"
  by (simp add: card_defs run_simps Let_def freshContext_def shieldOutline_def)

lemma run_clippedOps_first:
  "paints (run (clippedOps tw rnd p playerImg agrasenImg logoImg) freshContext) \<noteq> []"
  by (simp add: card_defs run_simps Let_def freshContext_def)

lemma run_goldBorderOps:
  "paints (run goldBorderOps c) =
     paints c @
       [Painted Stroke ((current c)\<lparr>strokeStyle := Color ''#ffd700'', lineWidth := 15\<rparr>) shieldOutline,
        Painted Stroke ((current c)\<lparr>strokeStyle := Color ''#fff8dc'', lineWidth := 2\<rparr>) shieldOutline]"
  by (cases "saved c")
     (simp_all add: goldBorderOps_def drawShieldPath_def shieldOutline_def run_simps)

lemma textPaints_clippedOps:
  "textPaints (paints (run (clippedOps tw rnd p playerImg agrasenImg logoImg) freshContext)) =
     [(FillText (ratingText p) 115 160,
       mkFont ''700'' (fst (drawTextWithFit tw (ratingText p) 115 160 100 80
                              ''Oswald'' ''700'' ''#ffd700'')) ''Oswald''),
      (FillText (toUpperCase (take 3 (role p))) 115 200, mkFont ''600'' 40 ''Bebas Neue''),
      (FillText (toUpperCase (name p)) 300 530,
       mkFont ''400'' (fst (drawTextWithFit tw (toUpperCase (name p)) 300 530 480 60
                              ''Bebas Neue'' ''400'' ''#ffd700'')) ''Bebas Neue''),
      (FillText ''ROLE'' 300 585, mkFont ''400'' 20 ''Bebas Neue''),
      (FillText (toUpperCase (role p)) 300 615,
       mkFont ''600'' (fst (drawTextWithFit tw (toUpperCase (role p)) 300 615 440 24
                              ''Montserrat'' ''600'' ''#ffffff'')) ''Montserrat''),
      (FillText ''BATTING'' 300 643, mkFont ''400'' 20 ''Bebas Neue''),
      (FillText (toUpperCase (battingStyle p)) 300 673,
       mkFont ''600'' (fst (drawTextWithFit tw (toUpperCase (battingStyle p)) 300 673 440 24
                              ''Montserrat'' ''600'' ''#ffffff'')) ''Montserrat''),
      (FillText ''BOWLING'' 300 701, mkFont ''400'' 20 ''Bebas Neue''),
      (FillText (toUpperCase (bowlingStyle p)) 300 731,
       mkFont ''600'' (fst (drawTextWithFit tw (toUpperCase (bowlingStyle p)) 300 731 440 24
                              ''Montserrat'' ''600'' ''#ffffff'')) ''Montserrat'')]"
  by (simp add: card_defs run_simps Let_def freshContext_def textPaints_def)

lemma textPaints_goldBorderOps:
  "textPaints (paints (run goldBorderOps c)) = textPaints (paints c)"
  by (simp add: run_goldBorderOps textPaints_def)

lemma generateCard_ok:
  assumes "cardContext e"
  shows "\<exists>playerImg agrasenImg logoImg.
           generateCard e player agrasenUrl logoUrl =
             Inr \<lparr>canvasWidth = CARD_WIDTH, canvasHeight = CARD_HEIGHT,
                  canvasOps = clippedOps (textWidth e) (mathRandom e) player
                                playerImg agrasenImg logoImg @ goldBorderOps\<rparr>"
proof -
  have l: "\<exists>img. fst (loadImage ev ctx src) = Inr img" for ev ctx src
    by (cases ev) (simp_all add: loadImage_def)
  obtain playerImg where 1:
    "fst (loadImage (imageEvent e (imageUrl player)) (placeholderContext e) (imageUrl player))
       = Inr playerImg"
    using l by blast
  obtain agrasenImg where 2:
    "fst (loadImage (imageEvent e agrasenUrl) (placeholderContext e) agrasenUrl) = Inr agrasenImg"
    using l by blast
  obtain logoImg where 3:
    "fst (loadImage (imageEvent e logoUrl) (placeholderContext e) logoUrl) = Inr logoImg"
    using l by blast
  show ?thesis
    using assms by (simp add: generateCard_def 1 2 3) blast
qed

lemma stopSize_call_sites: "stopSize 80 = 14" "stopSize 60 = 14" "stopSize 24 = 14"
  by (simp_all add: stopSize_def)

text \<open>
  C2 (as amended). Every card that is composed paints nine texts, each once and in this
  order: the rating, the role abbreviation, the name, and a label and a value for each
  of the three stats. The rating (budget 100, from size 80), the name (budget
  \<open>CARD_WIDTH - 120\<close>, from size 60) and the three stat values (budget
  \<open>CARD_WIDTH - 160\<close>, from size 24) are painted in a font whose size is between 14 and
  the initial size, and at that size the measured width of the text is within its
  budget unless the size is 14: the loop stops at 14, and a text that is still too wide
  there is painted at 14 and overflows its budget.
\<close>

theorem card_texts_fit_or_stop_at_14:
  assumes "cardContext e"
  shows "\<exists>cv r1 r2 r3 r4 r5.
     generateCard e player agrasenUrl logoUrl = Inr cv
     \<and> textPaints (paints (run (canvasOps cv) freshContext)) =
         [(FillText (ratingText player) 115 160, mkFont ''700'' r1 ''Oswald''),
          (FillText (toUpperCase (take 3 (role player))) 115 200, mkFont ''600'' 40 ''Bebas Neue''),
          (FillText (toUpperCase (name player)) (CARD_WIDTH / 2) 530, mkFont ''400'' r2 ''Bebas Neue''),
          (FillText ''ROLE'' (CARD_WIDTH / 2) 585, mkFont ''400'' 20 ''Bebas Neue''),
          (FillText (toUpperCase (role player)) (CARD_WIDTH / 2) 615, mkFont ''600'' r3 ''Montserrat''),
          (FillText ''BATTING'' (CARD_WIDTH / 2) 643, mkFont ''400'' 20 ''Bebas Neue''),
          (FillText (toUpperCase (battingStyle player)) (CARD_WIDTH / 2) 673,
           mkFont ''600'' r4 ''Montserrat''),
          (FillText ''BOWLING'' (CARD_WIDTH / 2) 701, mkFont ''400'' 20 ''Bebas Neue''),
          (FillText (toUpperCase (bowlingStyle player)) (CARD_WIDTH / 2) 731,
           mkFont ''600'' r5 ''Montserrat'')]
     \<and> 14 \<le> r1 \<and> r1 \<le> 80
     \<and> (textWidth e (mkFont ''700'' r1 ''Oswald'') (ratingText player) \<le> 100 \<or> r1 = 14)
     \<and> 14 \<le> r2 \<and> r2 \<le> 60
     \<and> (textWidth e (mkFont ''400'' r2 ''Bebas Neue'') (toUpperCase (name player))
           \<le> CARD_WIDTH - 120 \<or> r2 = 14)
     \<and> 14 \<le> r3 \<and> r3 \<le> 24
     \<and> (textWidth e (mkFont ''600'' r3 ''Montserrat'') (toUpperCase (role player))
           \<le> CARD_WIDTH - 160 \<or> r3 = 14)
     \<and> 14 \<le> r4 \<and> r4 \<le> 24
     \<and> (textWidth e (mkFont ''600'' r4 ''Montserrat'') (toUpperCase (battingStyle player))
           \<le> CARD_WIDTH - 160 \<or> r4 = 14)
     \<and> 14 \<le> r5 \<and> r5 \<le> 24
     \<and> (textWidth e (mkFont ''600'' r5 ''Montserrat'') (toUpperCase (bowlingStyle player))
           \<le> CARD_WIDTH - 160 \<or> r5 = 14)"
proof -
  from generateCard_ok [OF assms] obtain playerImg agrasenImg logoImg where
    g: "generateCard e player agrasenUrl logoUrl =
          Inr \<lparr>canvasWidth = CARD_WIDTH, canvasHeight = CARD_HEIGHT,
               canvasOps = clippedOps (textWidth e) (mathRandom e) player
                             playerImg agrasenImg logoImg @ goldBorderOps\<rparr>"
    by blast
  define r1 where "r1 = fst (drawTextWithFit (textWidth e) (ratingText player) 115 160 100 80
                               ''Oswald'' ''700'' ''#ffd700'')"
  define r2 where "r2 = fst (drawTextWithFit (textWidth e) (toUpperCase (name player)) 300 530
                               480 60 ''Bebas Neue'' ''400'' ''#ffd700'')"
  define r3 where "r3 = fst (drawTextWithFit (textWidth e) (toUpperCase (role player)) 300 615
                               440 24 ''Montserrat'' ''600'' ''#ffffff'')"
  define r4 where "r4 = fst (drawTextWithFit (textWidth e) (toUpperCase (battingStyle player))
                               300 673 440 24 ''Montserrat'' ''600'' ''#ffffff'')"
  define r5 where "r5 = fst (drawTextWithFit (textWidth e) (toUpperCase (bowlingStyle player))
                               300 731 440 24 ''Montserrat'' ''600'' ''#ffffff'')"
  have t: "textPaints (paints (run (clippedOps (textWidth e) (mathRandom e) player
                                      playerImg agrasenImg logoImg @ goldBorderOps) freshContext)) =
         [(FillText (ratingText player) 115 160, mkFont ''700'' r1 ''Oswald''),
          (FillText (toUpperCase (take 3 (role player))) 115 200, mkFont ''600'' 40 ''Bebas Neue''),
          (FillText (toUpperCase (name player)) 300 530, mkFont ''400'' r2 ''Bebas Neue''),
          (FillText ''ROLE'' 300 585, mkFont ''400'' 20 ''Bebas Neue''),
          (FillText (toUpperCase (role player)) 300 615, mkFont ''600'' r3 ''Montserrat''),
          (FillText ''BATTING'' 300 643, mkFont ''400'' 20 ''Bebas Neue''),
          (FillText (toUpperCase (battingStyle player)) 300 673, mkFont ''600'' r4 ''Montserrat''),
          (FillText ''BOWLING'' 300 701, mkFont ''400'' 20 ''Bebas Neue''),
          (FillText (toUpperCase (bowlingStyle player)) 300 731, mkFont ''600'' r5 ''Montserrat'')]"
    unfolding r1_def r2_def r3_def r4_def r5_def
    by (simp only: run_append textPaints_goldBorderOps textPaints_clippedOps)
  have s1: "14 \<le> r1" "r1 \<le> 80"
    "textWidth e (mkFont ''700'' r1 ''Oswald'') (ratingText player) \<le> 100 \<or> r1 = 14"
    unfolding r1_def by (rule drawTextWithFit_even_start, rule stopSize_call_sites)+
  have s2: "14 \<le> r2" "r2 \<le> 60"
    "textWidth e (mkFont ''400'' r2 ''Bebas Neue'') (toUpperCase (name player)) \<le> 480 \<or> r2 = 14"
    unfolding r2_def by (rule drawTextWithFit_even_start, rule stopSize_call_sites)+
  have s3: "14 \<le> r3" "r3 \<le> 24"
    "textWidth e (mkFont ''600'' r3 ''Montserrat'') (toUpperCase (role player)) \<le> 440 \<or> r3 = 14"
    unfolding r3_def by (rule drawTextWithFit_even_start, rule stopSize_call_sites)+
  have s4: "14 \<le> r4" "r4 \<le> 24"
    "textWidth e (mkFont ''600'' r4 ''Montserrat'') (toUpperCase (battingStyle player)) \<le> 440
       \<or> r4 = 14"
    unfolding r4_def by (rule drawTextWithFit_even_start, rule stopSize_call_sites)+
  have s5: "14 \<le> r5" "r5 \<le> 24"
    "textWidth e (mkFont ''600'' r5 ''Montserrat'') (toUpperCase (bowlingStyle player)) \<le> 440
       \<or> r5 = 14"
    unfolding r5_def by (rule drawTextWithFit_even_start, rule stopSize_call_sites)+
  have w: "CARD_WIDTH / 2 = 300" "CARD_WIDTH - 120 = 480" "CARD_WIDTH - 160 = 440"
    by (simp_all add: CARD_WIDTH_def)
  show ?thesis
    unfolding g w
    apply (rule exI, rule exI [of _ r1], rule exI [of _ r2], rule exI [of _ r3],
           rule exI [of _ r4], rule exI [of _ r5])
    apply (intro conjI)
                    apply (rule refl)
                   apply (simp only: canvas.simps t)
                  apply (rule s1 s2 s3 s4 s5)+
    done
qed

theorem card_texts_fit_or_stop_at_14_witness:
  "cardContext sampleEnv
   \<and> (\<exists>cv. generateCard sampleEnv (parseRow kohliRow 0) ''agrasen.png'' ''logo.png'' = Inr cv
        \<and> length (textPaints (paints (run (canvasOps cv) freshContext))) = 9
        \<and> fst (hd (textPaints (paints (run (canvasOps cv) freshContext))))
            = FillText (ratingText (parseRow kohliRow 0)) 115 160)"
proof -
  have c: "cardContext sampleEnv"
    by (simp add: sampleEnv_def)
  from card_texts_fit_or_stop_at_14
         [OF c, of "parseRow kohliRow 0" "''agrasen.png''" "''logo.png''"]
  show ?thesis
    apply (elim exE conjE)
    apply (rule conjI, rule c)
    apply (rule exI, rule conjI, assumption)
    apply simp
    done
qed

text \<open>
  The claim C2 as the specification states it fails: a 42-character name, each
  character one em wide, drawn with the name's parameters (budget 600 - 120 = 480,
  initial size 60) is shrunk to 14 and is then 588 wide.
\<close>

theorem drawTextWithFit_overflow_counterexample:
  "fst (drawTextWithFit emWidth ''WOLFESCHLEGELSTEINHAUSENBERGERDORFF SENIOR'' 300 530 480 60
          ''Bebas Neue'' ''400'' ''#ffd700'') = 14
   \<and> 480 < emWidth (mkFont ''400'' 14 ''Bebas Neue'')
              ''WOLFESCHLEGELSTEINHAUSENBERGERDORFF SENIOR''"
  by (simp add: drawTextWithFit_eq fitLoop.simps emWidth_def mkFont_def)

text \<open>
  C7. In every composition (every call of \<^verbatim>\<open>generateCard\<close> that gets a drawing
  context) the canvas operations end with the gold-border block, and the last two things
  painted are the strokes of the shield path: first 15 wide in \<open>#ffd700\<close>, then 2 wide in
  \<open>#fff8dc\<close>. Both are painted with an empty clipping region, the shield clip having been
  released by the restore before them, while everything painted earlier was painted
  inside the shield clip.
\<close>

theorem goldBorder_strokes_last:
  assumes "cardContext e"
  shows "\<exists>cv. generateCard e player agrasenUrl logoUrl = Inr cv
     \<and> drop (length (canvasOps cv) - length goldBorderOps) (canvasOps cv) = goldBorderOps
     \<and> last (butlast (paints (run (canvasOps cv) freshContext))) =
         Painted Stroke (defaultState\<lparr>strokeStyle := Color ''#ffd700'', lineWidth := 15\<rparr>)
           shieldOutline
     \<and> last (paints (run (canvasOps cv) freshContext)) =
         Painted Stroke (defaultState\<lparr>strokeStyle := Color ''#fff8dc'', lineWidth := 2\<rparr>)
           shieldOutline
     \<and> clipPaths (defaultState\<lparr>strokeStyle := Color ''#ffd700'', lineWidth := 15\<rparr>) = []
     \<and> clipPaths (defaultState\<lparr>strokeStyle := Color ''#fff8dc'', lineWidth := 2\<rparr>) = []
     \<and> (\<forall>ev \<in> set (butlast (butlast (paints (run (canvasOps cv) freshContext)))).
           shieldOutline \<in> set (clipPaths (stateOf ev)))"
proof -
  from generateCard_ok [OF assms] obtain playerImg agrasenImg logoImg where
    g: "generateCard e player agrasenUrl logoUrl =
          Inr \<lparr>canvasWidth = CARD_WIDTH, canvasHeight = CARD_HEIGHT,
               canvasOps = clippedOps (textWidth e) (mathRandom e) player
                             playerImg agrasenImg logoImg @ goldBorderOps\<rparr>"
    by blast
  let ?clipped = "clippedOps (textWidth e) (mathRandom e) player playerImg agrasenImg logoImg"
  let ?pre = "paints (run ?clipped freshContext)"
  have evs: "paints (run (?clipped @ goldBorderOps) freshContext) =
      ?pre @
      [Painted Stroke (defaultState\<lparr>strokeStyle := Color ''#ffd700'', lineWidth := 15\<rparr>)
         shieldOutline,
       Painted Stroke (defaultState\<lparr>strokeStyle := Color ''#fff8dc'', lineWidth := 2\<rparr>)
         shieldOutline]"
    by (simp only: run_append run_goldBorderOps run_clippedOps_state)
  have pre: "\<forall>ev \<in> set ?pre. shieldOutline \<in> set (clipPaths (stateOf ev))"
    by (rule run_clippedOps_clipped)
  have d: "clipPaths (defaultState\<lparr>strokeStyle := s, lineWidth := lw\<rparr>) = []" for s lw
    by (simp add: defaultState_def)
  show ?thesis
    unfolding g using pre d by (simp add: evs butlast_append)
qed

theorem goldBorder_strokes_last_witness:
  "cardContext sampleEnv
   \<and> (\<exists>cv. generateCard sampleEnv (parseRow kohliRow 0) ''agrasen.png'' ''logo.png'' = Inr cv
        \<and> hd (paints (run (canvasOps cv) freshContext))
            \<in> set (butlast (butlast (paints (run (canvasOps cv) freshContext))))
        \<and> shieldOutline \<in> set (clipPaths (stateOf (hd (paints (run (canvasOps cv) freshContext)))))
        \<and> last (paints (run (canvasOps cv) freshContext)) =
            Painted Stroke (defaultState\<lparr>strokeStyle := Color ''#fff8dc'', lineWidth := 2\<rparr>)
              shieldOutline)"
proof -
  have c: "cardContext sampleEnv"
    by (simp add: sampleEnv_def)
  from generateCard_ok [OF c] obtain playerImg agrasenImg logoImg where
    g: "generateCard sampleEnv (parseRow kohliRow 0) ''agrasen.png'' ''logo.png'' =
          Inr \<lparr>canvasWidth = CARD_WIDTH, canvasHeight = CARD_HEIGHT,
               canvasOps = clippedOps (textWidth sampleEnv) (mathRandom sampleEnv)
                             (parseRow kohliRow 0) playerImg agrasenImg logoImg
                           @ goldBorderOps\<rparr>"
    by blast
  let ?clipped = "clippedOps (textWidth sampleEnv) (mathRandom sampleEnv)
                    (parseRow kohliRow 0) playerImg agrasenImg logoImg"
  let ?pre = "paints (run ?clipped freshContext)"
  have ne: "?pre \<noteq> []"
    by (rule run_clippedOps_first)
  have evs: "paints (run (?clipped @ goldBorderOps) freshContext) =
      ?pre @
      [Painted Stroke (defaultState\<lparr>strokeStyle := Color ''#ffd700'', lineWidth := 15\<rparr>)
         shieldOutline,
       Painted Stroke (defaultState\<lparr>strokeStyle := Color ''#fff8dc'', lineWidth := 2\<rparr>)
         shieldOutline]"
    by (simp only: run_append run_goldBorderOps run_clippedOps_state)
  have h: "hd (paints (run (?clipped @ goldBorderOps) freshContext))
      \<in> set (butlast (butlast (paints (run (?clipped @ goldBorderOps) freshContext))))"
    using ne by (simp add: evs butlast_append)
  from goldBorder_strokes_last [OF c, of "parseRow kohliRow 0" "''agrasen.png''" "''logo.png''"]
  show ?thesis
    using c h unfolding g by auto
qed

section \<open>Properties of the batch driver\<close>

lemma forgeLoop_Inr:
  "gen i (p\<lparr>imageUrl := stringOr (getPlayerImageSource assets p) []\<rparr>) a l = Inr url \<Longrightarrow>
   forgeLoop gen assets a l i (p # ps) (cards, st) =
     forgeLoop gen assets a l (i + 1) ps
       (cards @ [\<lparr>playerId = id' p, dataUrl = url, scoutReport = None\<rparr>],
        st\<lparr>generatedCards := cards @ [\<lparr>playerId = id' p, dataUrl = url, scoutReport = None\<rparr>]\<rparr>)"
  by (simp add: Let_def)

lemma forgeLoop_Inl:
  "gen i (p\<lparr>imageUrl := stringOr (getPlayerImageSource assets p) []\<rparr>) a l = Inl err \<Longrightarrow>
   forgeLoop gen assets a l i (p # ps) (cards, st) = (Some err, cards, st)"
  by (simp add: Let_def)

lemma processLoop_Inr:
  "gen i p a l = Inr url \<Longrightarrow>
   processLoop gen a l i (p # ps) (cards, st) =
     processLoop gen a l (i + 1) ps
       (cards @ [\<lparr>playerId = id' p, dataUrl = url, scoutReport = None\<rparr>],
        st\<lparr>generatedCards := cards @ [\<lparr>playerId = id' p, dataUrl = url, scoutReport = None\<rparr>]\<rparr>)"
  by (simp add: Let_def)

lemma processLoop_Inl:
  "gen i p a l = Inl err \<Longrightarrow>
   processLoop gen a l i (p # ps) (cards, st) = (Some err, cards, st)"
  by (simp add: Let_def)

declare forgeLoop.simps(2) [simp del] processLoop.simps(2) [simp del]

lemma forgeLoop_length:
  "length cards \<le> length (fst (snd (forgeLoop gen assets a l i ps (cards, st))))
   \<and> length (fst (snd (forgeLoop gen assets a l i ps (cards, st)))) \<le> length cards + length ps
   \<and> (fst (forgeLoop gen assets a l i ps (cards, st)) = None \<longrightarrow>
        length (fst (snd (forgeLoop gen assets a l i ps (cards, st)))) = length cards + length ps)"
proof (induction ps arbitrary: i cards st)
  case Nil
  show ?case by simp
next
  case (Cons p ps)
  show ?case
  proof (cases "gen i (p\<lparr>imageUrl := stringOr (getPlayerImageSource assets p) []\<rparr>) a l")
    case (Inl err)
    have "forgeLoop gen assets a l i (p # ps) (cards, st) = (Some err, cards, st)"
      using Inl by (rule forgeLoop_Inl)
    then show ?thesis by simp
  next
    case (Inr url)
    define c where "c = \<lparr>playerId = id' p, dataUrl = url, scoutReport = None\<rparr>"
    define st' where "st' = st\<lparr>generatedCards := cards @ [c]\<rparr>"
    have eq: "forgeLoop gen assets a l i (p # ps) (cards, st) =
        forgeLoop gen assets a l (i + 1) ps (cards @ [c], st')"
      unfolding c_def st'_def using Inr by (rule forgeLoop_Inr)
    from Cons.IH [where i = "i + 1" and cards = "cards @ [c]" and st = st'] show ?thesis
      unfolding eq by simp
  qed
qed

lemma forgeLoop_ids:
  "map playerId (fst (snd (forgeLoop gen assets a l i ps (cards, st)))) =
     map playerId cards @
     take (length (fst (snd (forgeLoop gen assets a l i ps (cards, st)))) - length cards) (map id' ps)"
proof (induction ps arbitrary: i cards st)
  case Nil
  show ?case by simp
next
  case (Cons p ps)
  show ?case
  proof (cases "gen i (p\<lparr>imageUrl := stringOr (getPlayerImageSource assets p) []\<rparr>) a l")
    case (Inl err)
    have "forgeLoop gen assets a l i (p # ps) (cards, st) = (Some err, cards, st)"
      using Inl by (rule forgeLoop_Inl)
    then show ?thesis by simp
  next
    case (Inr url)
    define c where "c = \<lparr>playerId = id' p, dataUrl = url, scoutReport = None\<rparr>"
    define st' where "st' = st\<lparr>generatedCards := cards @ [c]\<rparr>"
    define cards' where "cards' = fst (snd (forgeLoop gen assets a l (i + 1) ps (cards @ [c], st')))"
    have eq: "forgeLoop gen assets a l i (p # ps) (cards, st) =
        forgeLoop gen assets a l (i + 1) ps (cards @ [c], st')"
      unfolding c_def st'_def using Inr by (rule forgeLoop_Inr)
    have "length (cards @ [c]) \<le> length cards'"
      unfolding cards'_def using forgeLoop_length by blast
    then have len: "length cards' - length cards = Suc (length cards' - length (cards @ [c]))"
      by simp
    have ih: "map playerId cards' =
        map playerId (cards @ [c]) @ take (length cards' - length (cards @ [c])) (map id' ps)"
      unfolding cards'_def by (rule Cons.IH)
    have "playerId c = id' p" by (simp add: c_def)
    then show ?thesis
      unfolding eq cards'_def [symmetric] len by (simp add: ih)
  qed
qed

lemma forgeLoop_completes:
  assumes "\<forall>k < length ps. \<exists>url. gen (i + k) ((ps ! k)\<lparr>imageUrl := stringOr (getPlayerImageSource assets (ps ! k)) []\<rparr>) a l = Inr url"
  shows "fst (forgeLoop gen assets a l i ps (cards, st)) = None"
  using assms
proof (induction ps arbitrary: i cards st)
  case Nil
  show ?case by simp
next
  case (Cons p ps)
  from Cons.prems [rule_format, of 0] obtain url where
    url: "gen i (p\<lparr>imageUrl := stringOr (getPlayerImageSource assets p) []\<rparr>) a l = Inr url"
    by auto
  define c where "c = \<lparr>playerId = id' p, dataUrl = url, scoutReport = None\<rparr>"
  define st' where "st' = st\<lparr>generatedCards := cards @ [c]\<rparr>"
  have eq: "forgeLoop gen assets a l i (p # ps) (cards, st) =
      forgeLoop gen assets a l (i + 1) ps (cards @ [c], st')"
    unfolding c_def st'_def using url by (rule forgeLoop_Inr)
  have rest: "\<forall>k < length ps. \<exists>url. gen (i + 1 + k) ((ps ! k)\<lparr>imageUrl := stringOr (getPlayerImageSource assets (ps ! k)) []\<rparr>) a l = Inr url"
  proof (intro allI impI)
    fix k assume "k < length ps"
    with Cons.prems [rule_format, of "Suc k"]
    show "\<exists>url. gen (i + 1 + k) ((ps ! k)\<lparr>imageUrl := stringOr (getPlayerImageSource assets (ps ! k)) []\<rparr>) a l = Inr url"
      by simp
  qed
  show ?case
    unfolding eq by (rule Cons.IH [OF rest])
qed

lemma forgeLoop_state:
  "generatedCards st = cards \<Longrightarrow>
   generatedCards (snd (snd (forgeLoop gen assets a l i ps (cards, st)))) =
     fst (snd (forgeLoop gen assets a l i ps (cards, st)))"
proof (induction ps arbitrary: i cards st)
  case Nil
  then show ?case by simp
next
  case (Cons p ps)
  show ?case
  proof (cases "gen i (p\<lparr>imageUrl := stringOr (getPlayerImageSource assets p) []\<rparr>) a l")
    case (Inl err)
    have "forgeLoop gen assets a l i (p # ps) (cards, st) = (Some err, cards, st)"
      using Inl by (rule forgeLoop_Inl)
    with Cons.prems show ?thesis by (simp only: fst_conv snd_conv)
  next
    case (Inr url)
    define c where "c = \<lparr>playerId = id' p, dataUrl = url, scoutReport = None\<rparr>"
    define st' where "st' = st\<lparr>generatedCards := cards @ [c]\<rparr>"
    have eq: "forgeLoop gen assets a l i (p # ps) (cards, st) =
        forgeLoop gen assets a l (i + 1) ps (cards @ [c], st')"
      unfolding c_def st'_def using Inr by (rule forgeLoop_Inr)
    have "generatedCards st' = cards @ [c]" by (simp add: st'_def)
    then show ?thesis
      unfolding eq by (rule Cons.IH)
  qed
qed

lemma processLoop_length:
  "length cards \<le> length (fst (snd (processLoop gen a l i ps (cards, st))))
   \<and> length (fst (snd (processLoop gen a l i ps (cards, st)))) \<le> length cards + length ps
   \<and> (fst (processLoop gen a l i ps (cards, st)) = None \<longrightarrow>
        length (fst (snd (processLoop gen a l i ps (cards, st)))) = length cards + length ps)"
proof (induction ps arbitrary: i cards st)
  case Nil
  show ?case by simp
next
  case (Cons p ps)
  show ?case
  proof (cases "gen i (p) a l")
    case (Inl err)
    have "processLoop gen a l i (p # ps) (cards, st) = (Some err, cards, st)"
      using Inl by (rule processLoop_Inl)
    then show ?thesis by simp
  next
    case (Inr url)
    define c where "c = \<lparr>playerId = id' p, dataUrl = url, scoutReport = None\<rparr>"
    define st' where "st' = st\<lparr>generatedCards := cards @ [c]\<rparr>"
    have eq: "processLoop gen a l i (p # ps) (cards, st) =
        processLoop gen a l (i + 1) ps (cards @ [c], st')"
      unfolding c_def st'_def using Inr by (rule processLoop_Inr)
    from Cons.IH [where i = "i + 1" and cards = "cards @ [c]" and st = st'] show ?thesis
      unfolding eq by simp
  qed
qed

lemma processLoop_ids:
  "map playerId (fst (snd (processLoop gen a l i ps (cards, st)))) =
     map playerId cards @
     take (length (fst (snd (processLoop gen a l i ps (cards, st)))) - length cards) (map id' ps)"
proof (induction ps arbitrary: i cards st)
  case Nil
  show ?case by simp
next
  case (Cons p ps)
  show ?case
  proof (cases "gen i (p) a l")
    case (Inl err)
    have "processLoop gen a l i (p # ps) (cards, st) = (Some err, cards, st)"
      using Inl by (rule processLoop_Inl)
    then show ?thesis by simp
  next
    case (Inr url)
    define c where "c = \<lparr>playerId = id' p, dataUrl = url, scoutReport = None\<rparr>"
    define st' where "st' = st\<lparr>generatedCards := cards @ [c]\<rparr>"
    define cards' where "cards' = fst (snd (processLoop gen a l (i + 1) ps (cards @ [c], st')))"
    have eq: "processLoop gen a l i (p # ps) (cards, st) =
        processLoop gen a l (i + 1) ps (cards @ [c], st')"
      unfolding c_def st'_def using Inr by (rule processLoop_Inr)
    have "length (cards @ [c]) \<le> length cards'"
      unfolding cards'_def using processLoop_length by blast
    then have len: "length cards' - length cards = Suc (length cards' - length (cards @ [c]))"
      by simp
    have ih: "map playerId cards' =
        map playerId (cards @ [c]) @ take (length cards' - length (cards @ [c])) (map id' ps)"
      unfolding cards'_def by (rule Cons.IH)
    have "playerId c = id' p" by (simp add: c_def)
    then show ?thesis
      unfolding eq cards'_def [symmetric] len by (simp add: ih)
  qed
qed

lemma processLoop_completes:
  assumes "\<forall>k < length ps. \<exists>url. gen (i + k) (ps ! k) a l = Inr url"
  shows "fst (processLoop gen a l i ps (cards, st)) = None"
  using assms
proof (induction ps arbitrary: i cards st)
  case Nil
  show ?case by simp
next
  case (Cons p ps)
  from Cons.prems [rule_format, of 0] obtain url where
    url: "gen i (p) a l = Inr url"
    by auto
  define c where "c = \<lparr>playerId = id' p, dataUrl = url, scoutReport = None\<rparr>"
  define st' where "st' = st\<lparr>generatedCards := cards @ [c]\<rparr>"
  have eq: "processLoop gen a l i (p # ps) (cards, st) =
      processLoop gen a l (i + 1) ps (cards @ [c], st')"
    unfolding c_def st'_def using url by (rule processLoop_Inr)
  have rest: "\<forall>k < length ps. \<exists>url. gen (i + 1 + k) (ps ! k) a l = Inr url"
  proof (intro allI impI)
    fix k assume "k < length ps"
    with Cons.prems [rule_format, of "Suc k"]
    show "\<exists>url. gen (i + 1 + k) (ps ! k) a l = Inr url"
      by simp
  qed
  show ?case
    unfolding eq by (rule Cons.IH [OF rest])
qed

lemma processLoop_state:
  "generatedCards st = cards \<Longrightarrow>
   generatedCards (snd (snd (processLoop gen a l i ps (cards, st)))) =
     fst (snd (processLoop gen a l i ps (cards, st)))"
proof (induction ps arbitrary: i cards st)
  case Nil
  then show ?case by simp
next
  case (Cons p ps)
  show ?case
  proof (cases "gen i (p) a l")
    case (Inl err)
    have "processLoop gen a l i (p # ps) (cards, st) = (Some err, cards, st)"
      using Inl by (rule processLoop_Inl)
    with Cons.prems show ?thesis by (simp only: fst_conv snd_conv)
  next
    case (Inr url)
    define c where "c = \<lparr>playerId = id' p, dataUrl = url, scoutReport = None\<rparr>"
    define st' where "st' = st\<lparr>generatedCards := cards @ [c]\<rparr>"
    have eq: "processLoop gen a l i (p # ps) (cards, st) =
        processLoop gen a l (i + 1) ps (cards @ [c], st')"
      unfolding c_def st'_def using Inr by (rule processLoop_Inr)
    have "generatedCards st' = cards @ [c]" by (simp add: st'_def)
    then show ?thesis
      unfolding eq by (rule Cons.IH)
  qed
qed

lemma forgeLoop_cards:
  "\<exists>new. fst (snd (forgeLoop gen assets a l i ps (cards, st))) = cards @ new
     \<and> length new \<le> length ps
     \<and> (\<forall>k < length new.
           gen (i + k) ((ps ! k)\<lparr>imageUrl := stringOr (getPlayerImageSource assets (ps ! k)) []\<rparr>) a l = Inr (dataUrl (new ! k))
           \<and> playerId (new ! k) = id' (ps ! k) \<and> scoutReport (new ! k) = None)
     \<and> (\<forall>err. fst (forgeLoop gen assets a l i ps (cards, st)) = Some err \<longrightarrow>
           length new < length ps
           \<and> gen (i + length new) ((ps ! length new)\<lparr>imageUrl := stringOr (getPlayerImageSource assets (ps ! length new)) []\<rparr>) a l = Inl err)"
proof (induction ps arbitrary: i cards st)
  case Nil
  show ?case by simp
next
  case (Cons p ps)
  show ?case
  proof (cases "gen i (p\<lparr>imageUrl := stringOr (getPlayerImageSource assets p) []\<rparr>) a l")
    case (Inl err)
    have eq: "forgeLoop gen assets a l i (p # ps) (cards, st) = (Some err, cards, st)"
      using Inl by (rule forgeLoop_Inl)
    show ?thesis
      unfolding eq by (rule exI [of _ "[]"]) (simp add: Inl)
  next
    case (Inr url)
    define c where "c = \<lparr>playerId = id' p, dataUrl = url, scoutReport = None\<rparr>"
    define st' where "st' = st\<lparr>generatedCards := cards @ [c]\<rparr>"
    have eq: "forgeLoop gen assets a l i (p # ps) (cards, st) =
        forgeLoop gen assets a l (i + 1) ps (cards @ [c], st')"
      unfolding c_def st'_def using Inr by (rule forgeLoop_Inr)
    from Cons.IH [where i = "i + 1" and cards = "cards @ [c]" and st = st']
    obtain new where n:
      "fst (snd (forgeLoop gen assets a l (i + 1) ps (cards @ [c], st'))) = (cards @ [c]) @ new
       \<and> length new \<le> length ps
       \<and> (\<forall>k < length new.
             gen (i + 1 + k) ((ps ! k)\<lparr>imageUrl := stringOr (getPlayerImageSource assets (ps ! k)) []\<rparr>) a l = Inr (dataUrl (new ! k))
             \<and> playerId (new ! k) = id' (ps ! k) \<and> scoutReport (new ! k) = None)
       \<and> (\<forall>err. fst (forgeLoop gen assets a l (i + 1) ps (cards @ [c], st')) = Some err \<longrightarrow>
             length new < length ps
             \<and> gen (i + 1 + length new) ((ps ! length new)\<lparr>imageUrl := stringOr (getPlayerImageSource assets (ps ! length new)) []\<rparr>) a l = Inl err)"
      ..
    have g1: "fst (snd (forgeLoop gen assets a l (i + 1) ps (cards @ [c], st'))) = cards @ (c # new)"
      using n by simp
    have g2: "length (c # new) \<le> length (p # ps)"
      using n by simp
    have g3: "\<forall>k < length (c # new).
        gen (i + k) (((p # ps) ! k)\<lparr>imageUrl := stringOr (getPlayerImageSource assets ((p # ps) ! k)) []\<rparr>) a l = Inr (dataUrl ((c # new) ! k))
        \<and> playerId ((c # new) ! k) = id' ((p # ps) ! k) \<and> scoutReport ((c # new) ! k) = None"
    proof (intro allI impI)
      fix k
      assume k: "k < length (c # new)"
      show "gen (i + k) (((p # ps) ! k)\<lparr>imageUrl := stringOr (getPlayerImageSource assets ((p # ps) ! k)) []\<rparr>) a l = Inr (dataUrl ((c # new) ! k))
        \<and> playerId ((c # new) ! k) = id' ((p # ps) ! k) \<and> scoutReport ((c # new) ! k) = None"
      proof (cases k)
        case 0
        then show ?thesis using Inr by (simp add: c_def)
      next
        case (Suc j)
        with k have "j < length new" by simp
        with n have "gen (i + 1 + j) ((ps ! j)\<lparr>imageUrl := stringOr (getPlayerImageSource assets (ps ! j)) []\<rparr>) a l = Inr (dataUrl (new ! j))
          \<and> playerId (new ! j) = id' (ps ! j) \<and> scoutReport (new ! j) = None"
          by simp
        then show ?thesis by (simp add: Suc)
      qed
    qed
    have g4: "\<forall>err. fst (forgeLoop gen assets a l (i + 1) ps (cards @ [c], st')) = Some err \<longrightarrow>
        length (c # new) < length (p # ps)
        \<and> gen (i + length (c # new)) (((p # ps) ! length (c # new))\<lparr>imageUrl := stringOr (getPlayerImageSource assets ((p # ps) ! length (c # new))) []\<rparr>) a l = Inl err"
      using n by simp
    show ?thesis
      unfolding eq by (rule exI [of _ "c # new"]) (intro conjI g1 g2 g3 g4)
  qed
qed

lemma forgeLoop_from_start:
  "(\<forall>k < length (fst (snd (forgeLoop gen assets a l 0 ps ([], st)))).
      gen k ((ps ! k)\<lparr>imageUrl := stringOr (getPlayerImageSource assets (ps ! k)) []\<rparr>) a l
        = Inr (dataUrl (fst (snd (forgeLoop gen assets a l 0 ps ([], st))) ! k))
      \<and> playerId (fst (snd (forgeLoop gen assets a l 0 ps ([], st))) ! k) = id' (ps ! k)
      \<and> scoutReport (fst (snd (forgeLoop gen assets a l 0 ps ([], st))) ! k) = None)
   \<and> (\<forall>err. fst (forgeLoop gen assets a l 0 ps ([], st)) = Some err \<longrightarrow>
         length (fst (snd (forgeLoop gen assets a l 0 ps ([], st)))) < length ps
         \<and> gen (length (fst (snd (forgeLoop gen assets a l 0 ps ([], st)))))
               ((ps ! length (fst (snd (forgeLoop gen assets a l 0 ps ([], st)))))\<lparr>imageUrl := stringOr (getPlayerImageSource assets (ps ! length (fst (snd (forgeLoop gen assets a l 0 ps ([], st)))))) []\<rparr>) a l
             = Inl err)"
proof -
  from forgeLoop_cards [of gen assets a l 0 ps "[]" st] obtain new where n:
    "fst (snd (forgeLoop gen assets a l 0 ps ([], st))) = [] @ new
     \<and> length new \<le> length ps
     \<and> (\<forall>k < length new.
           gen (0 + k) ((ps ! k)\<lparr>imageUrl := stringOr (getPlayerImageSource assets (ps ! k)) []\<rparr>) a l = Inr (dataUrl (new ! k))
           \<and> playerId (new ! k) = id' (ps ! k) \<and> scoutReport (new ! k) = None)
     \<and> (\<forall>err. fst (forgeLoop gen assets a l 0 ps ([], st)) = Some err \<longrightarrow>
           length new < length ps
           \<and> gen (0 + length new) ((ps ! length new)\<lparr>imageUrl := stringOr (getPlayerImageSource assets (ps ! length new)) []\<rparr>) a l = Inl err)"
    ..
  from n have cs: "fst (snd (forgeLoop gen assets a l 0 ps ([], st))) = new"
    by simp
  from n show ?thesis
    unfolding cs by simp
qed

lemma processLoop_cards:
  "\<exists>new. fst (snd (processLoop gen a l i ps (cards, st))) = cards @ new
     \<and> length new \<le> length ps
     \<and> (\<forall>k < length new.
           gen (i + k) (ps ! k) a l = Inr (dataUrl (new ! k))
           \<and> playerId (new ! k) = id' (ps ! k) \<and> scoutReport (new ! k) = None)
     \<and> (\<forall>err. fst (processLoop gen a l i ps (cards, st)) = Some err \<longrightarrow>
           length new < length ps
           \<and> gen (i + length new) (ps ! length new) a l = Inl err)"
proof (induction ps arbitrary: i cards st)
  case Nil
  show ?case by simp
next
  case (Cons p ps)
  show ?case
  proof (cases "gen i p a l")
    case (Inl err)
    have eq: "processLoop gen a l i (p # ps) (cards, st) = (Some err, cards, st)"
      using Inl by (rule processLoop_Inl)
    show ?thesis
      unfolding eq by (rule exI [of _ "[]"]) (simp add: Inl)
  next
    case (Inr url)
    define c where "c = \<lparr>playerId = id' p, dataUrl = url, scoutReport = None\<rparr>"
    define st' where "st' = st\<lparr>generatedCards := cards @ [c]\<rparr>"
    have eq: "processLoop gen a l i (p # ps) (cards, st) =
        processLoop gen a l (i + 1) ps (cards @ [c], st')"
      unfolding c_def st'_def using Inr by (rule processLoop_Inr)
    from Cons.IH [where i = "i + 1" and cards = "cards @ [c]" and st = st']
    obtain new where n:
      "fst (snd (processLoop gen a l (i + 1) ps (cards @ [c], st'))) = (cards @ [c]) @ new
       \<and> length new \<le> length ps
       \<and> (\<forall>k < length new.
             gen (i + 1 + k) (ps ! k) a l = Inr (dataUrl (new ! k))
             \<and> playerId (new ! k) = id' (ps ! k) \<and> scoutReport (new ! k) = None)
       \<and> (\<forall>err. fst (processLoop gen a l (i + 1) ps (cards @ [c], st')) = Some err \<longrightarrow>
             length new < length ps
             \<and> gen (i + 1 + length new) (ps ! length new) a l = Inl err)"
      ..
    have g1: "fst (snd (processLoop gen a l (i + 1) ps (cards @ [c], st'))) = cards @ (c # new)"
      using n by simp
    have g2: "length (c # new) \<le> length (p # ps)"
      using n by simp
    have g3: "\<forall>k < length (c # new).
        gen (i + k) ((p # ps) ! k) a l = Inr (dataUrl ((c # new) ! k))
        \<and> playerId ((c # new) ! k) = id' ((p # ps) ! k) \<and> scoutReport ((c # new) ! k) = None"
    proof (intro allI impI)
      fix k
      assume k: "k < length (c # new)"
      show "gen (i + k) ((p # ps) ! k) a l = Inr (dataUrl ((c # new) ! k))
        \<and> playerId ((c # new) ! k) = id' ((p # ps) ! k) \<and> scoutReport ((c # new) ! k) = None"
      proof (cases k)
        case 0
        then show ?thesis using Inr by (simp add: c_def)
      next
        case (Suc j)
        with k have "j < length new" by simp
        with n have "gen (i + 1 + j) (ps ! j) a l = Inr (dataUrl (new ! j))
          \<and> playerId (new ! j) = id' (ps ! j) \<and> scoutReport (new ! j) = None"
          by simp
        then show ?thesis by (simp add: Suc)
      qed
    qed
    have g4: "\<forall>err. fst (processLoop gen a l (i + 1) ps (cards @ [c], st')) = Some err \<longrightarrow>
        length (c # new) < length (p # ps)
        \<and> gen (i + length (c # new)) ((p # ps) ! length (c # new)) a l = Inl err"
      using n by simp
    show ?thesis
      unfolding eq by (rule exI [of _ "c # new"]) (intro conjI g1 g2 g3 g4)
  qed
qed

lemma processLoop_from_start:
  "(\<forall>k < length (fst (snd (processLoop gen a l 0 ps ([], st)))).
      gen k (ps ! k) a l
        = Inr (dataUrl (fst (snd (processLoop gen a l 0 ps ([], st))) ! k))
      \<and> playerId (fst (snd (processLoop gen a l 0 ps ([], st))) ! k) = id' (ps ! k)
      \<and> scoutReport (fst (snd (processLoop gen a l 0 ps ([], st))) ! k) = None)
   \<and> (\<forall>err. fst (processLoop gen a l 0 ps ([], st)) = Some err \<longrightarrow>
         length (fst (snd (processLoop gen a l 0 ps ([], st)))) < length ps
         \<and> gen (length (fst (snd (processLoop gen a l 0 ps ([], st)))))
               (ps ! length (fst (snd (processLoop gen a l 0 ps ([], st))))) a l
             = Inl err)"
proof -
  from processLoop_cards [of gen a l 0 ps "[]" st] obtain new where n:
    "fst (snd (processLoop gen a l 0 ps ([], st))) = [] @ new
     \<and> length new \<le> length ps
     \<and> (\<forall>k < length new.
           gen (0 + k) (ps ! k) a l = Inr (dataUrl (new ! k))
           \<and> playerId (new ! k) = id' (ps ! k) \<and> scoutReport (new ! k) = None)
     \<and> (\<forall>err. fst (processLoop gen a l 0 ps ([], st)) = Some err \<longrightarrow>
           length new < length ps
           \<and> gen (0 + length new) (ps ! length new) a l = Inl err)"
    ..
  from n have cs: "fst (snd (processLoop gen a l 0 ps ([], st))) = new"
    by simp
  from n show ?thesis
    unfolding cs by simp
qed

lemma sampleGen_ok: "\<exists>url. sampleGen k p a l = Inr url"
proof -
  have "cardContext sampleEnv" by (simp add: sampleEnv_def)
  from generateCard_ok [OF this] show ?thesis
    unfolding sampleGen_def by blast
qed

lemma sample_ids: "map id' (players sampleApp) = [''player-0'', ''player-1'']"
  by code_simp

text \<open>
  C4 (as amended). When every composition of the batch succeeds, the loop of
  \<^verbatim>\<open>handleForgeCards\<close> and the loop of \<^verbatim>\<open>handleProcess\<close> end normally with exactly
  one card per player record, in the order of the input list, the card at each position
  carrying the id of the record at that position. In every case the cards produced
  correspond, in order and by id, to an initial part of the input list, and the card at
  each position holds the image that the compositor returned for the record at that
  position (for \<^verbatim>\<open>handleForgeCards\<close>, the record with its resolved image source) and no
  scout report. A loop that ends normally has produced a card for every record. A loop
  that ends with an error has produced fewer cards than there are records: the
  composition for the first record without a card is the one that failed, the error is
  the one it threw, and the records from that one on get no card. The component's
  \<open>generatedCards\<close>, empty before the batch, holds the cards produced.
\<close>

theorem batch_cards_follow_players:
  "((\<forall>k < length ps. \<exists>url.
        gen k ((ps ! k)\<lparr>imageUrl := stringOr (getPlayerImageSource assets (ps ! k)) []\<rparr>) a l
          = Inr url) \<longrightarrow>
      fst (forgeLoop gen assets a l 0 ps ([], st)) = None
      \<and> map playerId (fst (snd (forgeLoop gen assets a l 0 ps ([], st)))) = map id' ps)
   \<and> (fst (forgeLoop gen assets a l 0 ps ([], st)) = None \<longrightarrow>
        length (fst (snd (forgeLoop gen assets a l 0 ps ([], st)))) = length ps)
   \<and> length (fst (snd (forgeLoop gen assets a l 0 ps ([], st)))) \<le> length ps
   \<and> map playerId (fst (snd (forgeLoop gen assets a l 0 ps ([], st)))) =
       take (length (fst (snd (forgeLoop gen assets a l 0 ps ([], st))))) (map id' ps)
   \<and> (\<forall>k < length (fst (snd (forgeLoop gen assets a l 0 ps ([], st)))).
        gen k ((ps ! k)\<lparr>imageUrl := stringOr (getPlayerImageSource assets (ps ! k)) []\<rparr>) a l
          = Inr (dataUrl (fst (snd (forgeLoop gen assets a l 0 ps ([], st))) ! k))
        \<and> playerId (fst (snd (forgeLoop gen assets a l 0 ps ([], st))) ! k) = id' (ps ! k)
        \<and> scoutReport (fst (snd (forgeLoop gen assets a l 0 ps ([], st))) ! k) = None)
   \<and> (\<forall>err. fst (forgeLoop gen assets a l 0 ps ([], st)) = Some err \<longrightarrow>
        length (fst (snd (forgeLoop gen assets a l 0 ps ([], st)))) < length ps
        \<and> gen (length (fst (snd (forgeLoop gen assets a l 0 ps ([], st)))))
              ((ps ! length (fst (snd (forgeLoop gen assets a l 0 ps ([], st)))))\<lparr>imageUrl := stringOr (getPlayerImageSource assets (ps ! length (fst (snd (forgeLoop gen assets a l 0 ps ([], st)))))) []\<rparr>) a l
            = Inl err)
   \<and> ((\<forall>k < length ps. \<exists>url. gen k (ps ! k) a l = Inr url) \<longrightarrow>
      fst (processLoop gen a l 0 ps ([], st)) = None
      \<and> map playerId (fst (snd (processLoop gen a l 0 ps ([], st)))) = map id' ps)
   \<and> (fst (processLoop gen a l 0 ps ([], st)) = None \<longrightarrow>
        length (fst (snd (processLoop gen a l 0 ps ([], st)))) = length ps)
   \<and> length (fst (snd (processLoop gen a l 0 ps ([], st)))) \<le> length ps
   \<and> map playerId (fst (snd (processLoop gen a l 0 ps ([], st)))) =
       take (length (fst (snd (processLoop gen a l 0 ps ([], st))))) (map id' ps)
   \<and> (\<forall>k < length (fst (snd (processLoop gen a l 0 ps ([], st)))).
        gen k (ps ! k) a l
          = Inr (dataUrl (fst (snd (processLoop gen a l 0 ps ([], st))) ! k))
        \<and> playerId (fst (snd (processLoop gen a l 0 ps ([], st))) ! k) = id' (ps ! k)
        \<and> scoutReport (fst (snd (processLoop gen a l 0 ps ([], st))) ! k) = None)
   \<and> (\<forall>err. fst (processLoop gen a l 0 ps ([], st)) = Some err \<longrightarrow>
        length (fst (snd (processLoop gen a l 0 ps ([], st)))) < length ps
        \<and> gen (length (fst (snd (processLoop gen a l 0 ps ([], st)))))
              (ps ! length (fst (snd (processLoop gen a l 0 ps ([], st))))) a l
            = Inl err)
   \<and> (generatedCards st = [] \<longrightarrow>
        generatedCards (snd (snd (forgeLoop gen assets a l 0 ps ([], st)))) =
          fst (snd (forgeLoop gen assets a l 0 ps ([], st)))
        \<and> generatedCards (snd (snd (processLoop gen a l 0 ps ([], st)))) =
            fst (snd (processLoop gen a l 0 ps ([], st))))"
proof -
  let ?F = "forgeLoop gen assets a l 0 ps ([], st)"
  let ?P = "processLoop gen a l 0 ps ([], st)"
  have f1: "fst ?F = None \<longrightarrow> length (fst (snd ?F)) = length ps"
    and f2: "length (fst (snd ?F)) \<le> length ps"
    using forgeLoop_length [of "[]" gen assets a l 0 ps st] by simp_all
  have f3: "map playerId (fst (snd ?F)) = take (length (fst (snd ?F))) (map id' ps)"
    using forgeLoop_ids [of gen assets a l 0 ps "[]" st] by simp
  have f4: "(\<forall>k < length ps. \<exists>url.
        gen k ((ps ! k)\<lparr>imageUrl := stringOr (getPlayerImageSource assets (ps ! k)) []\<rparr>) a l
          = Inr url) \<longrightarrow>
      fst ?F = None \<and> map playerId (fst (snd ?F)) = map id' ps"
  proof
    assume "\<forall>k < length ps. \<exists>url.
        gen k ((ps ! k)\<lparr>imageUrl := stringOr (getPlayerImageSource assets (ps ! k)) []\<rparr>) a l
          = Inr url"
    then have n: "fst ?F = None"
      by (intro forgeLoop_completes) simp
    with f1 f3 show "fst ?F = None \<and> map playerId (fst (snd ?F)) = map id' ps" by simp
  qed
  note f5 = forgeLoop_from_start [of gen assets a l ps st, THEN conjunct1]
  note f6 = forgeLoop_from_start [of gen assets a l ps st, THEN conjunct2]
  have p1: "fst ?P = None \<longrightarrow> length (fst (snd ?P)) = length ps"
    and p2: "length (fst (snd ?P)) \<le> length ps"
    using processLoop_length [of "[]" gen a l 0 ps st] by simp_all
  have p3: "map playerId (fst (snd ?P)) = take (length (fst (snd ?P))) (map id' ps)"
    using processLoop_ids [of gen a l 0 ps "[]" st] by simp
  have p4: "(\<forall>k < length ps. \<exists>url. gen k (ps ! k) a l = Inr url) \<longrightarrow>
      fst ?P = None \<and> map playerId (fst (snd ?P)) = map id' ps"
  proof
    assume "\<forall>k < length ps. \<exists>url. gen k (ps ! k) a l = Inr url"
    then have n: "fst ?P = None"
      by (intro processLoop_completes) simp
    with p1 p3 show "fst ?P = None \<and> map playerId (fst (snd ?P)) = map id' ps" by simp
  qed
  note p5 = processLoop_from_start [of gen a l ps st, THEN conjunct1]
  note p6 = processLoop_from_start [of gen a l ps st, THEN conjunct2]
  have s: "generatedCards st = [] \<longrightarrow>
      generatedCards (snd (snd ?F)) = fst (snd ?F)
      \<and> generatedCards (snd (snd ?P)) = fst (snd ?P)"
    using forgeLoop_state [of st "[]" gen assets a l 0 ps]
      processLoop_state [of st "[]" gen a l 0 ps] by simp
  show ?thesis
    by (intro conjI f4 f1 f2 f3 f5 f6 p4 p1 p2 p3 p5 p6 s)
qed

theorem batch_cards_follow_players_witness:
  "(\<exists>url. sampleGen 0 ((players sampleApp ! 0)\<lparr>imageUrl :=
              stringOr (getPlayerImageSource sampleAssets (players sampleApp ! 0)) []\<rparr>)
            ''agrasen.png'' ''logo.png'' = Inr url)
   \<and> (\<exists>url. sampleGen 0 (players sampleApp ! 0) ''agrasen.png'' ''logo.png'' = Inr url)
   \<and> fst (forgeLoop sampleGen sampleAssets ''agrasen.png'' ''logo.png'' 0 (players sampleApp) ([], sampleApp)) = None
   \<and> fst (processLoop sampleGen ''agrasen.png'' ''logo.png'' 0 (players sampleApp) ([], sampleApp)) = None
   \<and> length (fst (snd (forgeLoop sampleGen sampleAssets ''agrasen.png'' ''logo.png'' 0 (players sampleApp) ([], sampleApp)))) = 2
   \<and> length (fst (snd (processLoop sampleGen ''agrasen.png'' ''logo.png'' 0 (players sampleApp) ([], sampleApp)))) = 2
   \<and> map playerId (fst (snd (forgeLoop sampleGen sampleAssets ''agrasen.png'' ''logo.png'' 0 (players sampleApp) ([], sampleApp))))
       = [''player-0'', ''player-1'']
   \<and> map playerId (fst (snd (processLoop sampleGen ''agrasen.png'' ''logo.png'' 0 (players sampleApp) ([], sampleApp))))
       = [''player-0'', ''player-1'']
   \<and> sampleGen 1 ((players sampleApp ! 1)\<lparr>imageUrl :=
          stringOr (getPlayerImageSource sampleAssets (players sampleApp ! 1)) []\<rparr>)
        ''agrasen.png'' ''logo.png''
       = Inr (dataUrl (fst (snd (forgeLoop sampleGen sampleAssets ''agrasen.png'' ''logo.png'' 0 (players sampleApp) ([], sampleApp))) ! 1))
   \<and> sampleGen 1 (players sampleApp ! 1) ''agrasen.png'' ''logo.png''
       = Inr (dataUrl (fst (snd (processLoop sampleGen ''agrasen.png'' ''logo.png'' 0 (players sampleApp) ([], sampleApp))) ! 1))
   \<and> generatedCards sampleApp = []
   \<and> generatedCards (snd (snd (forgeLoop sampleGen sampleAssets ''agrasen.png'' ''logo.png'' 0 (players sampleApp) ([], sampleApp))))
       = fst (snd (forgeLoop sampleGen sampleAssets ''agrasen.png'' ''logo.png'' 0 (players sampleApp) ([], sampleApp)))"
proof -
  have len: "length (players sampleApp) = 2" "generatedCards sampleApp = []"
    by (simp_all add: sampleApp_def)
  note t = batch_cards_follow_players
         [of "players sampleApp" sampleGen sampleAssets "''agrasen.png''" "''logo.png''" sampleApp]
  have ok: "\<exists>url. sampleGen k p ''agrasen.png'' ''logo.png'' = Inr url" for k p
    by (rule sampleGen_ok)
  from t ok have fin: "fst (forgeLoop sampleGen sampleAssets ''agrasen.png'' ''logo.png'' 0 (players sampleApp) ([], sampleApp)) = None"
      "map playerId (fst (snd (forgeLoop sampleGen sampleAssets ''agrasen.png'' ''logo.png'' 0 (players sampleApp) ([], sampleApp)))) = map id' (players sampleApp)"
      "fst (processLoop sampleGen ''agrasen.png'' ''logo.png'' 0 (players sampleApp) ([], sampleApp)) = None"
      "map playerId (fst (snd (processLoop sampleGen ''agrasen.png'' ''logo.png'' 0 (players sampleApp) ([], sampleApp)))) = map id' (players sampleApp)"
    by simp_all
  from t fin have n: "length (fst (snd (forgeLoop sampleGen sampleAssets ''agrasen.png'' ''logo.png'' 0 (players sampleApp) ([], sampleApp)))) = 2"
      "length (fst (snd (processLoop sampleGen ''agrasen.png'' ''logo.png'' 0 (players sampleApp) ([], sampleApp)))) = 2"
    by (simp_all add: len)
  from t n have d: "sampleGen 1 ((players sampleApp ! 1)\<lparr>imageUrl :=
          stringOr (getPlayerImageSource sampleAssets (players sampleApp ! 1)) []\<rparr>)
        ''agrasen.png'' ''logo.png''
       = Inr (dataUrl (fst (snd (forgeLoop sampleGen sampleAssets ''agrasen.png'' ''logo.png'' 0 (players sampleApp) ([], sampleApp))) ! 1))"
      "sampleGen 1 (players sampleApp ! 1) ''agrasen.png'' ''logo.png''
       = Inr (dataUrl (fst (snd (processLoop sampleGen ''agrasen.png'' ''logo.png'' 0 (players sampleApp) ([], sampleApp))) ! 1))"
    by simp_all
  from t len have g: "generatedCards (snd (snd (forgeLoop sampleGen sampleAssets ''agrasen.png'' ''logo.png'' 0 (players sampleApp) ([], sampleApp))))
       = fst (snd (forgeLoop sampleGen sampleAssets ''agrasen.png'' ''logo.png'' 0 (players sampleApp) ([], sampleApp)))"
    by simp
  from ok fin n d g len show ?thesis
    by (simp add: sample_ids)
qed

text \<open>
  The claim C4 as the specification states it fails: when the second of two compositions
  gets no drawing context, \<^verbatim>\<open>generateCard\<close> throws, the handler's \<^verbatim>\<open>catch\<close> ends
  the batch, and the two player records have produced one card.
\<close>

theorem batch_cards_follow_players_counterexample:
  "length (players sampleApp) = 2
   \<and> status (handleForgeCards failingGen sampleAssets sampleApp) = ERROR
   \<and> map playerId (generatedCards (handleForgeCards failingGen sampleAssets sampleApp))
       = [''player-0'']
   \<and> status (handleProcess failingGen sampleAssets (Inr (players sampleApp)) sampleApp) = ERROR
   \<and> map playerId
         (generatedCards (handleProcess failingGen sampleAssets (Inr (players sampleApp)) sampleApp))
       = [''player-0'']"
  by code_simp

section \<open>Properties of the roster ingestion\<close>

lemma parseInt_50: "parseInt ''50'' = Some 50"
  by code_simp

lemma parseInt_undefined: "parseInt ''undefined'' = None"
  by code_simp

lemma parseInt_Nil: "parseInt [] = None"
  by code_simp

lemma ratingText_50: "formNumber p = 50 \<Longrightarrow> ratingText p = ''50''"
proof -
  have "padStart 2 CHR ''0'' (numberToString 50) = ''50''" by code_simp
  then show "formNumber p = 50 \<Longrightarrow> ratingText p = ''50''"
    by (simp add: ratingText_def)
qed

lemma fitLoop_no_text:
  "FillText a b c \<notin> set (snd (fitLoop m t w fw ff (fs, [])))"
  by (subst fitLoop_fonts) auto

lemma rating_text_op:
  "FillText t 115 160 \<in> set (clippedOps tw rnd p playerImg agrasenImg logoImg @ goldBorderOps)
     \<longleftrightarrow> t = ratingText p"
  by (auto simp add: card_defs goldBorderOps_def Let_def drawTextWithFit_eq upt_5
        fitLoop_no_text)

lemma natToString_not_Nil: "natToString n \<noteq> []"
  by (subst natToString.simps) simp

lemma char_of_48: "char_of (48 :: nat) = CHR ''0''"
  by code_simp

lemma digit_zero:
  fixes n :: nat
  assumes "n < 10"
  shows "char_of (48 + n) = CHR ''0'' \<longleftrightarrow> n = 0"
proof
  assume "char_of (48 + n) = CHR ''0''"
  then have "(of_char (char_of (48 + n)) :: nat) = of_char CHR ''0''"
    by simp
  with assms show "n = 0"
    by simp
next
  assume "n = 0"
  then show "char_of (48 + n) = CHR ''0''"
    by (simp add: char_of_48)
qed

lemma natToString_hd: "hd (natToString n) = CHR ''0'' \<longleftrightarrow> n = 0"
proof (induction n rule: natToString.induct)
  case (1 n)
  show ?case
  proof (cases "n < 10")
    case True
    then show ?thesis
      by (subst natToString.simps) (simp add: digit_zero)
  next
    case False
    then have "n div 10 \<noteq> 0" by simp
    with "1.IH" [OF False] have "hd (natToString (n div 10)) \<noteq> CHR ''0''" by simp
    with False show ?thesis
      by (subst natToString.simps) (simp add: natToString_not_Nil)
  qed
qed

lemma ratingText_not_00:
  assumes "formNumber p \<noteq> 0"
  shows "ratingText p \<noteq> ''00''"
proof (cases "formNumber p < 0")
  case True
  then show ?thesis
    using natToString_not_Nil [of "nat (- formNumber p)"]
    by (cases "natToString (nat (- formNumber p))")
       (simp_all add: ratingText_def numberToString_def padStart_def)
next
  case False
  with assms have n: "nat (formNumber p) \<noteq> 0" by simp
  then have h: "hd (natToString (nat (formNumber p))) \<noteq> CHR ''0''"
    by (simp add: natToString_hd)
  obtain c cs where s: "natToString (nat (formNumber p)) = c # cs"
    using natToString_not_Nil by (cases "natToString (nat (formNumber p))") auto
  with h have c: "c \<noteq> CHR ''0''" by simp
  show ?thesis
  proof (cases cs)
    case Nil
    with False s c show ?thesis
      by (simp add: ratingText_def numberToString_def padStart_def)
  next
    case (Cons d ds)
    with False s c show ?thesis
      by (simp add: ratingText_def numberToString_def padStart_def)
  qed
qed

lemma numberOr_nonzero: "numberOr x 50 \<noteq> 0"
  by (simp add: numberOr_def split: option.splits)


lemma formNumber_parseRow:
  "formNumber (parseRow row index) =
     numberOr (parseInt (stringOr (getRowValue row formKeys) ''50'')) 50"
  by (simp add: parseRow_def Let_def)

text \<open>
  C5. A row whose form-number cell is absent (no header matches, or, in the earlier
  mapper, there is no \<open>Form Number\<close> header) or is one for which \<^verbatim>\<open>parseInt\<close> yields
  \<^verbatim>\<open>NaN\<close> gives a player record with \<open>formNumber = 50\<close>, and every card composed for a
  record with \<open>formNumber = 50\<close> has the rating text \<open>50\<close>, the only text filled at the
  rating's position (115, 160).
\<close>

theorem unparsable_form_defaults_to_50:
  "((getRowValue row formKeys = None
       \<or> (\<exists>v. getRowValue row formKeys = Some v \<and> parseInt v = None)) \<longrightarrow>
      formNumber (parseRow row index) = 50 \<and> ratingText (parseRow row index) = ''50'')
   \<and> ((map_of row ''Form Number'' = None
        \<or> (\<exists>v. map_of row ''Form Number'' = Some v \<and> parseInt v = None)) \<longrightarrow>
       formNumberOfRow row = 50)
   \<and> (formNumber player = 50 \<and> cardContext e \<longrightarrow>
        (\<exists>cv. generateCard e player agrasenUrl logoUrl = Inr cv
           \<and> FillText ''50'' 115 160 \<in> set (canvasOps cv)
           \<and> (\<forall>t. FillText t 115 160 \<in> set (canvasOps cv) \<longrightarrow> t = ''50'')))"
proof -
  have a: "formNumber (parseRow row index) = 50 \<and> ratingText (parseRow row index) = ''50''"
    if "getRowValue row formKeys = None
        \<or> (\<exists>v. getRowValue row formKeys = Some v \<and> parseInt v = None)"
  proof -
    from that have "formNumber (parseRow row index) = 50"
      by (auto simp add: formNumber_parseRow stringOr_def numberOr_def parseInt_50)
    then show ?thesis
      by (simp add: ratingText_50)
  qed
  have b: "formNumberOfRow row = 50"
    if "map_of row ''Form Number'' = None
        \<or> (\<exists>v. map_of row ''Form Number'' = Some v \<and> parseInt v = None)"
    using that by (auto simp add: formNumberOfRow_def numberOr_def parseInt_undefined)
  have c: "\<exists>cv. generateCard e player agrasenUrl logoUrl = Inr cv
           \<and> FillText ''50'' 115 160 \<in> set (canvasOps cv)
           \<and> (\<forall>t. FillText t 115 160 \<in> set (canvasOps cv) \<longrightarrow> t = ''50'')"
    if "formNumber player = 50" "cardContext e"
  proof -
    from generateCard_ok [OF that(2)] obtain playerImg agrasenImg logoImg where
      g: "generateCard e player agrasenUrl logoUrl =
            Inr \<lparr>canvasWidth = CARD_WIDTH, canvasHeight = CARD_HEIGHT,
                 canvasOps = clippedOps (textWidth e) (mathRandom e) player
                               playerImg agrasenImg logoImg @ goldBorderOps\<rparr>"
      by blast
    show ?thesis
      unfolding g using ratingText_50 [OF that(1)]
      by (simp add: rating_text_op del: set_append)
  qed
  from a b c show ?thesis by blast
qed

theorem unparsable_form_defaults_to_50_witness:
  "getRowValue kohliRow formKeys = Some ''n/a''
   \<and> parseInt ''n/a'' = None
   \<and> formNumber (parseRow kohliRow 0) = 50
   \<and> ratingText (parseRow kohliRow 0) = ''50''
   \<and> map_of kohliRow ''Form Number'' = Some ''n/a''
   \<and> formNumberOfRow kohliRow = 50
   \<and> cardContext sampleEnv
   \<and> (\<exists>cv. generateCard sampleEnv (parseRow kohliRow 0) ''agrasen.png'' ''logo.png'' = Inr cv
        \<and> FillText ''50'' 115 160 \<in> set (canvasOps cv))"
proof -
  have h1: "getRowValue kohliRow formKeys = Some ''n/a''" by code_simp
  have h2: "parseInt ''n/a'' = None" by code_simp
  have h3: "map_of kohliRow ''Form Number'' = Some ''n/a''" by code_simp
  have h4: "cardContext sampleEnv" by (simp add: sampleEnv_def)
  from unparsable_form_defaults_to_50 [of kohliRow 0 "parseRow kohliRow 0" sampleEnv
         "''agrasen.png''" "''logo.png''"] h1 h2 h3 h4
  show ?thesis by auto
qed

text \<open>
  C10. A row whose form-number cell parses to 0 gets \<open>formNumber = 50\<close>, in the current
  mapper and in the earlier one, because \<^verbatim>\<open>parseInt(...) || 50\<close> replaces every falsy
  number. So no ingested record has \<open>formNumber = 0\<close>, the rating text of an ingested
  record is never \<open>00\<close>, and no card composed for one fills \<open>00\<close> at the rating's
  position.
\<close>

theorem zero_form_replaced_by_50:
  "((\<exists>v. getRowValue row formKeys = Some v \<and> parseInt v = Some 0) \<longrightarrow>
      formNumber (parseRow row index) = 50)
   \<and> ((\<exists>v. map_of row ''Form Number'' = Some v \<and> parseInt v = Some 0) \<longrightarrow>
       formNumberOfRow row = 50)
   \<and> formNumber (parseRow row index) \<noteq> 0
   \<and> formNumberOfRow row \<noteq> 0
   \<and> ratingText (parseRow row index) \<noteq> ''00''
   \<and> (parseExcelFile rawData = Inr ps \<longrightarrow>
        (\<forall>p \<in> set ps. formNumber p \<noteq> 0 \<and> ratingText p \<noteq> ''00''))
   \<and> (cardContext e \<longrightarrow>
        (\<exists>cv. generateCard e ((parseRow row index)\<lparr>imageUrl := src\<rparr>) agrasenUrl logoUrl = Inr cv
           \<and> FillText ''00'' 115 160 \<notin> set (canvasOps cv)))"
proof -
  have a: "formNumber (parseRow row index) = 50"
    if "\<exists>v. getRowValue row formKeys = Some v \<and> parseInt v = Some 0"
    using that by (auto simp add: formNumber_parseRow stringOr_def numberOr_def parseInt_Nil)
  have b: "formNumberOfRow row = 50"
    if "\<exists>v. map_of row ''Form Number'' = Some v \<and> parseInt v = Some 0"
    using that by (auto simp add: formNumberOfRow_def numberOr_def)
  have c: "formNumber (parseRow r i) \<noteq> 0" for r i
    by (simp add: formNumber_parseRow numberOr_nonzero)
  have d: "formNumberOfRow row \<noteq> 0"
    by (simp add: formNumberOfRow_def numberOr_nonzero)
  have e: "ratingText (parseRow r i) \<noteq> ''00''" for r i
    by (rule ratingText_not_00) (rule c)
  have f: "\<forall>p \<in> set ps. formNumber p \<noteq> 0 \<and> ratingText p \<noteq> ''00''"
    if "parseExcelFile rawData = Inr ps"
  proof
    fix p assume "p \<in> set ps"
    moreover from that
    have "ps = map (\<lambda>(row, index). parseRow row index) (zip rawData [0..<length rawData])"
      by (simp add: parseExcelFile_def Let_def split: if_splits)
    ultimately obtain r i where "p = parseRow r i" by auto
    with c e show "formNumber p \<noteq> 0 \<and> ratingText p \<noteq> ''00''" by simp
  qed
  have g: "\<exists>cv. generateCard e ((parseRow row index)\<lparr>imageUrl := src\<rparr>) agrasenUrl logoUrl = Inr cv
           \<and> FillText ''00'' 115 160 \<notin> set (canvasOps cv)"
    if "cardContext e"
  proof -
    let ?p = "(parseRow row index)\<lparr>imageUrl := src\<rparr>"
    from generateCard_ok [OF that] obtain playerImg agrasenImg logoImg where
      g: "generateCard e ?p agrasenUrl logoUrl =
            Inr \<lparr>canvasWidth = CARD_WIDTH, canvasHeight = CARD_HEIGHT,
                 canvasOps = clippedOps (textWidth e) (mathRandom e) ?p
                               playerImg agrasenImg logoImg @ goldBorderOps\<rparr>"
      by blast
    have "formNumber ?p \<noteq> 0" using c by simp
    then have "ratingText ?p \<noteq> ''00''" by (rule ratingText_not_00)
    then show ?thesis
      unfolding g
      by (simp add: rating_text_op del: set_append)
  qed
  from a b c d e f g show ?thesis by blast
qed

theorem zero_form_replaced_by_50_witness:
  "getRowValue bowlerRow formKeys = Some ''0''
   \<and> parseInt ''0'' = Some 0
   \<and> map_of bowlerRow ''Form Number'' = Some ''0''
   \<and> formNumber (parseRow bowlerRow 1) = 50
   \<and> formNumberOfRow bowlerRow = 50
   \<and> parseExcelFile [kohliRow, bowlerRow] = Inr [parseRow kohliRow 0, parseRow bowlerRow 1]
   \<and> formNumber (parseRow bowlerRow 1) \<noteq> 0
   \<and> ratingText (parseRow bowlerRow 1) \<noteq> ''00''
   \<and> cardContext sampleEnv
   \<and> (\<exists>cv. generateCard sampleEnv ((parseRow bowlerRow 1)\<lparr>imageUrl := []\<rparr>)
              ''agrasen.png'' ''logo.png'' = Inr cv
        \<and> FillText ''00'' 115 160 \<notin> set (canvasOps cv))"
proof -
  have h1: "getRowValue bowlerRow formKeys = Some ''0''" by code_simp
  have h2: "parseInt ''0'' = Some 0" by code_simp
  have h3: "map_of bowlerRow ''Form Number'' = Some ''0''" by code_simp
  have h4: "cardContext sampleEnv" by (simp add: sampleEnv_def)
  have h5: "parseExcelFile [kohliRow, bowlerRow] = Inr [parseRow kohliRow 0, parseRow bowlerRow 1]"
    by (simp add: parseExcelFile_def upt_rec)
  from zero_form_replaced_by_50 [of bowlerRow 1 "[kohliRow, bowlerRow]"
         "[parseRow kohliRow 0, parseRow bowlerRow 1]" sampleEnv "[]"
         "''agrasen.png''" "''logo.png''"] h1 h2 h3 h4 h5
  show ?thesis by auto
qed

end
